theory Spec2Isabelle
  imports
    Complex_Main
    "HOL-Library.Char_ord"
    "HOL-Library.List_Lexorder"
    "HOL-Library.Log_Nat"
    "HOL-Library.Multiset"
begin

section \<open>The renderer of go-spook/spook\<close>

text \<open>
  A shallow embedding of \<^verbatim>\<open>renderer/renderer.go\<close> and of the view models it fills.
  Go strings are byte strings (\<^typ>\<open>string\<close>), Go's \<^verbatim>\<open>int\<close> is the 64-bit signed
  integer (an \<^typ>\<open>int\<close> with the wrap-around written out), \<^verbatim>\<open>float64\<close> is IEEE 754
  binary64 with round-to-nearest-even, a slice is a list, and the destination
  \<^verbatim>\<open>io.Writer\<close> is the string of the bytes written to it so far.
\<close>

subsection \<open>Data model\<close>

text \<open>
  Modelled from the spec: the package \<^verbatim>\<open>model\<close> (Config, Page, Post, Group) is not among
  the sources; the records hold the fields that the renderer reads.
\<close>

record model_Config =
  cfg_Theme :: string
  cfg_Title :: string
  cfg_Owner :: string
  cfg_Description :: string
  cfg_Pagination :: int

record model_Page =
  page_Path :: string
  page_Title :: string
  page_Excerpt :: string
  page_Thumbnail :: string

record model_Post =
  post_Path :: string
  post_Title :: string
  post_Excerpt :: string
  post_Thumbnail :: string
  post_Author :: string
  post_Category :: string
  post_Tags :: "string list"
  post_CreatedAt :: string
  post_UpdatedAt :: string

record model_Group =
  group_Name :: string
  group_Path :: string

datatype ListType = DEFAULT | CATEGORY | TAG

record Renderer =
  rd_Config :: model_Config
  rd_Pages :: "model_Page list"
  rd_Posts :: "model_Post list"
  rd_Tags :: "model_Group list"
  rd_Categories :: "model_Group list"
  rd_Minimize :: bool
  rd_RootDir :: string

record Layout =
  WebsiteTitle :: string
  WebsiteOwner :: string
  ContentTitle :: string
  ContentDesc :: string
  ContentAuthor :: string
  Pages :: "model_Page list"

record List_view =
  list_Layout :: Layout
  list_Type :: ListType
  list_Path :: string
  list_Posts :: "model_Post list"
  list_Tags :: "model_Group list"
  list_Categories :: "model_Group list"
  CurrentPage :: int
  MaxPage :: int

record Post_view =
  pv_Layout :: Layout
  pv_CreatedAt :: string
  pv_UpdatedAt :: string
  pv_Category :: model_Group
  pv_Tags :: "model_Group list"
  pv_Thumbnail :: string
  pv_HTML :: string
  pv_Older :: model_Post
  pv_Newer :: model_Post

text \<open>The \<^verbatim>\<open>data interface{}\<close> handed to the template engine.\<close>

datatype view_data = ListData List_view | PostData Post_view

text \<open>
  An error value is made by \<^verbatim>\<open>fmt.Errorf\<close> in the renderer, or comes out of a library
  call (directory listing, file reading, template parsing and execution, minifying) and
  is handed on as it is. \<open>Panic\<close> is a run-time panic, which unwinds the call.
\<close>

datatype error = Errorf string | Foreign string | Panic string

subsection \<open>The world outside the renderer\<close>

text \<open>
  The file system, the template engine, the minifier and the markdown engine are
  parameters. \<open>execute tpl name data\<close> gives the bytes that the engine writes before it
  finishes or fails, and the error if it fails; \<open>minify\<close> does the same for the minifier
  reading a buffer. \<open>convUndef\<close> is the value of a float-to-int conversion whose operand
  does not fit, which Go leaves to the implementation.

  Modelled from the spec: \<^verbatim>\<open>fileExists\<close>, \<^verbatim>\<open>readIndexFile\<close>, \<^verbatim>\<open>removeMetadata\<close> and
  \<^verbatim>\<open>highlightCode\<close> are helpers of the package that are not among the sources; they are
  fields of the environment.
\<close>

datatype f64 = Finite rat | PosInf | NegInf | NaN

record FileInfo =
  fi_Name :: string
  fi_IsDir :: bool

record 'tpl env =
  fileExists :: "string \<Rightarrow> bool"
  readDir :: "string \<Rightarrow> error + FileInfo list"
  readIndexFile :: "string \<Rightarrow> error + string"
  removeMetadata :: "string \<Rightarrow> string"
  markdown :: "string \<Rightarrow> string"
  highlightCode :: "string \<Rightarrow> string"
  parseFiles :: "string list \<Rightarrow> error + 'tpl"
  execute :: "'tpl \<Rightarrow> string \<Rightarrow> view_data \<Rightarrow> string \<times> error option"
  minify :: "string \<Rightarrow> string \<times> error option"
  convUndef :: "f64 \<Rightarrow> int"

subsection \<open>Library functions: paths, strings, sorting\<close>

text \<open>
  \<^verbatim>\<open>path.Join\<close> (and \<^verbatim>\<open>filepath.Join\<close> where the separator is the slash) drops empty
  elements, joins the rest with slashes and cleans the result: \<^verbatim>\<open>path.Clean\<close> removes
  empty and \<^verbatim>\<open>.\<close> elements, lets \<^verbatim>\<open>..\<close> cancel the element before it (at the root it is
  dropped), and gives \<^verbatim>\<open>.\<close> for an empty result.
\<close>

fun splitSlash :: "string \<Rightarrow> string list" where
  "splitSlash [] = [[]]"
| "splitSlash (c # cs) =
     (if c = CHR ''/'' then [] # splitSlash cs
      else (case splitSlash cs of [] \<Rightarrow> [[c]] | w # ws \<Rightarrow> (c # w) # ws))"

fun joinSlash :: "string list \<Rightarrow> string" where
  "joinSlash [] = []"
| "joinSlash [e] = e"
| "joinSlash (e # f # es) = e @ ''/'' @ joinSlash (f # es)"

fun cleanElems :: "bool \<Rightarrow> string list \<Rightarrow> string list \<Rightarrow> string list" where
  "cleanElems rooted out [] = rev out"
| "cleanElems rooted out (e # es) =
     (if e = [] \<or> e = ''.'' then cleanElems rooted out es
      else if e = ''..'' then
        (case out of
           [] \<Rightarrow> if rooted then cleanElems rooted [] es else cleanElems rooted [''..''] es
         | d # ds \<Rightarrow>
             if d = ''..'' then cleanElems rooted (e # out) es else cleanElems rooted ds es)
      else cleanElems rooted (e # out) es)"

definition Clean :: "string \<Rightarrow> string" where
  "Clean p =
     (if p = [] then ''.''
      else
        let rooted = (hd p = CHR ''/'');
            body = joinSlash (cleanElems rooted [] (splitSlash p))
        in if rooted then ''/'' @ body else if body = [] then ''.'' else body)"

definition Join :: "string list \<Rightarrow> string" where
  "Join elem =
     (let es = filter (\<lambda>e. e \<noteq> []) elem in if es = [] then [] else Clean (joinSlash es))"

definition HasPrefix :: "string \<Rightarrow> string \<Rightarrow> bool" where
  "HasPrefix s p \<longleftrightarrow> length p \<le> length s \<and> take (length p) s = p"

definition HasSuffix :: "string \<Rightarrow> string \<Rightarrow> bool" where
  "HasSuffix s p \<longleftrightarrow> length p \<le> length s \<and> drop (length s - length p) s = p"

text \<open>
  \<^verbatim>\<open>sort.Slice\<close> with the comparison \<open>lt\<close>: the slice comes back reordered so that no
  element is \<open>lt\<close> one before it. Sorting by insertion is one such reordering.
\<close>

fun insertSlice :: "('a \<Rightarrow> 'a \<Rightarrow> bool) \<Rightarrow> 'a \<Rightarrow> 'a list \<Rightarrow> 'a list" where
  "insertSlice lt x [] = [x]"
| "insertSlice lt x (y # ys) =
     (if lt x y then x # y # ys else y # insertSlice lt x ys)"

fun sortSlice :: "('a \<Rightarrow> 'a \<Rightarrow> bool) \<Rightarrow> 'a list \<Rightarrow> 'a list" where
  "sortSlice lt [] = []"
| "sortSlice lt (x # xs) = insertSlice lt x (sortSlice lt xs)"

subsection \<open>Machine arithmetic\<close>

definition wrap64 :: "int \<Rightarrow> int" where
  "wrap64 x = (x + 2 ^ 63) mod 2 ^ 64 - 2 ^ 63"

text \<open>
  binary64: a finite value is a rational \<open>m * 2 ^ e\<close> with \<open>\<bar>m\<bar> < 2 ^ 53\<close> and
  \<open>-1074 \<le> e\<close>, below \<open>2 ^ 1024\<close>. The sign of a zero is not kept: it shows only in the
  sign of a quotient by zero, and the divisor here is a converted integer, whose zero is
  positive.
\<close>

definition pow2 :: "int \<Rightarrow> rat" where
  "pow2 e = (if 0 \<le> e then 2 ^ nat e else 1 / 2 ^ nat (- e))"

definition floor_log2 :: "rat \<Rightarrow> int" where
  "floor_log2 x =
     (let d = bitlen (fst (quotient_of x)) - bitlen (snd (quotient_of x))
      in if pow2 d \<le> x then d else d - 1)"

definition round_half_even :: "rat \<Rightarrow> int" where
  "round_half_even x =
     (let f = \<lfloor>x\<rfloor>; d = x - of_int f
      in if d < 1 / 2 then f else if 1 / 2 < d then f + 1 else if even f then f else f + 1)"

definition round64 :: "rat \<Rightarrow> f64" where
  "round64 x =
     (if x = 0 then Finite 0
      else
        let a = \<bar>x\<bar>;
            e = max (floor_log2 a) (- 1022);
            u = pow2 (e - 52);
            r = of_int (round_half_even (a / u)) * u
        in if pow2 1024 \<le> r then (if 0 < x then PosInf else NegInf)
           else Finite (sgn x * r))"

definition f64_of_int :: "int \<Rightarrow> f64" where
  "f64_of_int n = round64 (of_int n)"

fun f64_div :: "f64 \<Rightarrow> f64 \<Rightarrow> f64" where
  "f64_div NaN _ = NaN"
| "f64_div _ NaN = NaN"
| "f64_div (Finite x) (Finite y) =
     (if y = 0 then (if x = 0 then NaN else if 0 < x then PosInf else NegInf)
      else round64 (x / y))"
| "f64_div (Finite x) _ = Finite 0"
| "f64_div PosInf (Finite y) = (if y < 0 then NegInf else PosInf)"
| "f64_div NegInf (Finite y) = (if y < 0 then PosInf else NegInf)"
| "f64_div _ _ = NaN"

fun f64_Ceil :: "f64 \<Rightarrow> f64" where
  "f64_Ceil (Finite x) = Finite (of_int \<lceil>x\<rceil>)"
| "f64_Ceil v = v"

text \<open>The conversion \<^verbatim>\<open>int(f)\<close> drops the fraction; out of range it is \<open>undef f\<close>.\<close>

fun f64_to_int :: "(f64 \<Rightarrow> int) \<Rightarrow> f64 \<Rightarrow> int" where
  "f64_to_int undef (Finite x) =
     (let t = (if 0 \<le> x then \<lfloor>x\<rfloor> else \<lceil>x\<rceil>)
      in if - (2 ^ 63) \<le> t \<and> t < 2 ^ 63 then t else undef (Finite x))"
| "f64_to_int undef v = undef v"

subsection \<open>Helpers of the renderer\<close>

definition validateConfig :: "Renderer \<Rightarrow> error option" where
  "validateConfig rd =
     (if cfg_Theme (rd_Config rd) = [] then
        Some (Errorf ''No theme specified in configuration file'')
      else None)"

definition themeDir :: "Renderer \<Rightarrow> string" where
  "themeDir rd = Join [rd_RootDir rd, ''theme'', cfg_Theme (rd_Config rd)]"

fun baseItems :: "string \<Rightarrow> FileInfo list \<Rightarrow> string list" where
  "baseItems dir [] = []"
| "baseItems dir (item # items) =
     (if fi_IsDir item then baseItems dir items
      else if HasSuffix (fi_Name item) ''.html'' \<and> HasPrefix (fi_Name item) ''_'' then
        Join [dir, fi_Name item] # baseItems dir items
      else baseItems dir items)"

definition getBaseTemplates :: "'tpl env \<Rightarrow> Renderer \<Rightarrow> error + string list" where
  "getBaseTemplates E rd =
     (case readDir E (themeDir rd) of
        Inl err \<Rightarrow> Inl err
      | Inr items \<Rightarrow> Inr (baseItems (themeDir rd) items))"

definition getMaxPagination :: "'tpl env \<Rightarrow> Renderer \<Rightarrow> model_Post list \<Rightarrow> int" where
  "getMaxPagination E rd posts =
     (let nPosts = int (length posts);
          pageLength = cfg_Pagination (rd_Config rd);
          fMaxPage = f64_Ceil (f64_div (f64_of_int nPosts) (f64_of_int pageLength))
      in f64_to_int (convUndef E) fMaxPage)"

text \<open>
  The slice expression \<^verbatim>\<open>posts[start:end]\<close> panics unless \<open>0 \<le> start \<le> end \<le> cap\<close>;
  \<open>end\<close> has been cut to the length before.
\<close>

definition getListPosts :: "Renderer \<Rightarrow> model_Post list \<Rightarrow> int \<Rightarrow> error + model_Post list" where
  "getListPosts rd posts pageNumber =
     (let nPosts = int (length posts);
          pageLength = cfg_Pagination (rd_Config rd);
          start = wrap64 (wrap64 (pageNumber - 1) * pageLength);
          end0 = wrap64 (start + pageLength);
          end1 = (if end0 > nPosts then nPosts else end0)
      in if 0 \<le> start \<and> start \<le> end1 then
           Inr (drop (nat start) (take (nat end1) posts))
         else Inl (Panic ''slice bounds out of range''))"

definition executeTemplate ::
  "'tpl env \<Rightarrow> Renderer \<Rightarrow> 'tpl \<Rightarrow> string \<Rightarrow> string \<Rightarrow> view_data \<Rightarrow> error option \<times> string" where
  "executeTemplate E rd tpl w name data =
     (if \<not> rd_Minimize rd then
        (case execute E tpl name data of (out, err) \<Rightarrow> (err, w @ out))
      else
        (case execute E tpl name data of
           (buff, Some err) \<Rightarrow> (Some err, w)
         | (buff, None) \<Rightarrow> (case minify E buff of (out, err) \<Rightarrow> (err, w @ out))))"

subsection \<open>The entry points\<close>

text \<open>
  An entry point takes the destination's content and gives it back with what the call
  wrote. \<open>RenderFrontPage\<close> and \<open>RenderPost\<close> return Go's \<^verbatim>\<open>error\<close> (\<open>None\<close> is
  \<^verbatim>\<open>nil\<close>). \<open>RenderList\<close> returns \<^verbatim>\<open>(int, error)\<close>, and the integer is \<open>-1\<close> wherever an
  error is returned: \<open>Inl err\<close> is the return \<^verbatim>\<open>(-1, err)\<close> (or the panic \<open>err\<close>), and
  \<open>Inr n\<close> is the return \<^verbatim>\<open>(n, nil)\<close>.
\<close>

definition baseLayoutFrontPage :: "Renderer \<Rightarrow> Layout" where
  "baseLayoutFrontPage rd =
     \<lparr>WebsiteTitle = cfg_Title (rd_Config rd),
      WebsiteOwner = cfg_Owner (rd_Config rd),
      ContentTitle = cfg_Title (rd_Config rd),
      ContentDesc = cfg_Description (rd_Config rd),
      ContentAuthor = cfg_Owner (rd_Config rd),
      Pages = rd_Pages rd\<rparr>"

definition RenderFrontPage :: "'tpl env \<Rightarrow> Renderer \<Rightarrow> string \<Rightarrow> error option \<times> string" where
  "RenderFrontPage E rd dst =
     (case validateConfig rd of
        Some err \<Rightarrow> (Some err, dst)
      | None \<Rightarrow>
         let tplList = Join [themeDir rd, ''list.html''];
             tplFrontPage = Join [themeDir rd, ''frontpage.html'']
         in
         (case getBaseTemplates E rd of
            Inl err \<Rightarrow> (Some err, dst)
          | Inr templates \<Rightarrow>
             (case (if fileExists E tplFrontPage then
                      Inr (''frontpage.html'', templates @ [tplFrontPage])
                    else if fileExists E tplList then
                      Inr (''list.html'', templates @ [tplList])
                    else Inl (Errorf ''Template for frontpage and list is not exist'')) of
                Inl err \<Rightarrow> (Some err, dst)
              | Inr (activeTemplate, templates') \<Rightarrow>
                 (case getListPosts rd (rd_Posts rd) 1 of
                    Inl err \<Rightarrow> (Some err, dst)
                  | Inr window \<Rightarrow>
                     let frontPage =
                           \<lparr>list_Layout = baseLayoutFrontPage rd,
                            list_Type = DEFAULT,
                            list_Path = ''/posts'',
                            list_Posts = window,
                            list_Tags = rd_Tags rd,
                            list_Categories = rd_Categories rd,
                            CurrentPage = 1,
                            MaxPage = getMaxPagination E rd (rd_Posts rd)\<rparr>
                     in
                     (case parseFiles E templates' of
                        Inl err \<Rightarrow> (Some err, dst)
                      | Inr tpl \<Rightarrow>
                         executeTemplate E rd tpl dst activeTemplate (ListData frontPage))))))"

definition filterCategory :: "string \<Rightarrow> model_Post \<Rightarrow> bool" where
  "filterCategory groupName post \<longleftrightarrow> post_Category post = groupName"

fun tagLoop :: "string \<Rightarrow> string list \<Rightarrow> bool" where
  "tagLoop groupName [] = False"
| "tagLoop groupName (tag # tags) = (if tag = groupName then True else tagLoop groupName tags)"

definition filterTag :: "string \<Rightarrow> model_Post \<Rightarrow> bool" where
  "filterTag groupName post = tagLoop groupName (post_Tags post)"

text \<open>
  The two closures read the variable \<^verbatim>\<open>groupName\<close> when they are called, after the
  assignment that turns \<^verbatim>\<open>uncategorized\<close> into the empty string: \<open>groupNameOf\<close> is the
  variable's value from there on.
\<close>

definition groupNameOf :: "ListType \<Rightarrow> string \<Rightarrow> string" where
  "groupNameOf listType groupName =
     (if listType \<noteq> DEFAULT \<and> listType = CATEGORY \<and> groupName = ''uncategorized'' then []
      else groupName)"

definition listPostsOf :: "Renderer \<Rightarrow> ListType \<Rightarrow> string \<Rightarrow> model_Post list" where
  "listPostsOf rd listType groupName =
     (if listType = DEFAULT then rd_Posts rd
      else
        let filt = (if listType = CATEGORY then filterCategory else filterTag)
        in filter (filt (groupNameOf listType groupName)) (rd_Posts rd))"

definition listPathOf :: "ListType \<Rightarrow> string \<Rightarrow> string" where
  "listPathOf listType groupName =
     (if listType = CATEGORY then Join [''/category'', groupName]
      else if listType = TAG then Join [''/tag'', groupName]
      else ''/posts'')"

definition baseLayoutList :: "Renderer \<Rightarrow> string \<Rightarrow> Layout" where
  "baseLayoutList rd groupName =
     \<lparr>WebsiteTitle = cfg_Title (rd_Config rd),
      WebsiteOwner = cfg_Owner (rd_Config rd),
      ContentTitle = groupName,
      ContentDesc = cfg_Description (rd_Config rd),
      ContentAuthor = [],
      Pages = rd_Pages rd\<rparr>"

definition RenderList ::
  "'tpl env \<Rightarrow> Renderer \<Rightarrow> ListType \<Rightarrow> string \<Rightarrow> int \<Rightarrow> string \<Rightarrow> (error + int) \<times> string" where
  "RenderList E rd listType groupName0 pageNumber0 dst =
     (case validateConfig rd of
        Some err \<Rightarrow> (Inl err, dst)
      | None \<Rightarrow>
         let tplList = Join [themeDir rd, ''list.html'']
         in
         if \<not> fileExists E tplList then (Inl (Errorf ''Template for list is not exist''), dst)
         else
         (case getBaseTemplates E rd of
            Inl err \<Rightarrow> (Inl err, dst)
          | Inr templates \<Rightarrow>
             let posts = listPostsOf rd listType groupName0;
                 groupName = groupNameOf listType groupName0;
                 pageNumber = (if pageNumber0 < 1 then 1 else pageNumber0);
                 maxPagination = getMaxPagination E rd posts
             in
             if pageNumber > maxPagination then (Inr (- 1), dst)
             else
             (case getListPosts rd posts pageNumber of
                Inl err \<Rightarrow> (Inl err, dst)
              | Inr window \<Rightarrow>
                 let list =
                       \<lparr>list_Layout = baseLayoutList rd groupName,
                        list_Type = listType,
                        list_Path = listPathOf listType groupName,
                        list_Posts = window,
                        list_Tags = [],
                        list_Categories = [],
                        CurrentPage = pageNumber,
                        MaxPage = maxPagination\<rparr>
                 in
                 (case parseFiles E (templates @ [tplList]) of
                    Inl err \<Rightarrow> (Inl err, dst)
                  | Inr tpl \<Rightarrow>
                     (case executeTemplate E rd tpl dst ''list.html'' (ListData list) of
                        (Some err, w) \<Rightarrow> (Inl err, w)
                      | (None, w) \<Rightarrow> (Inr (int (length posts)), w))))))"

definition postCategory :: "model_Post \<Rightarrow> model_Group" where
  "postCategory post =
     (let category =
            \<lparr>group_Name = post_Category post,
             group_Path = Join [''/'', ''category'', post_Category post]\<rparr>
      in if group_Name category = [] then
           category\<lparr>group_Path := Join [''/'', ''category'', ''uncategorized'']\<rparr>
         else category)"

definition postTags :: "model_Post \<Rightarrow> model_Group list" where
  "postTags post =
     sortSlice (\<lambda>gi gj. group_Name gi < group_Name gj)
       (map (\<lambda>tag. \<lparr>group_Name = tag, group_Path = Join [''/'', ''tag'', tag]\<rparr>) (post_Tags post))"

definition RenderPost ::
  "'tpl env \<Rightarrow> Renderer \<Rightarrow> model_Post \<Rightarrow> model_Post \<Rightarrow> model_Post \<Rightarrow> string
     \<Rightarrow> error option \<times> string" where
  "RenderPost E rd post0 olderPost newerPost dst =
     (case validateConfig rd of
        Some err \<Rightarrow> (Some err, dst)
      | None \<Rightarrow>
         let tplPost = Join [themeDir rd, ''post.html'']
         in
         if \<not> fileExists E tplPost then (Some (Errorf ''Template for post is not exist''), dst)
         else
         (case getBaseTemplates E rd of
            Inl err \<Rightarrow> (Some err, dst)
          | Inr templates \<Rightarrow>
             let category = postCategory post0;
                 tags = postTags post0;
                 post = (if post_Author post0 = []
                         then post0\<lparr>post_Author := cfg_Owner (rd_Config rd)\<rparr> else post0)
             in
             (case readIndexFile E (post_Path post) of
                Inl err \<Rightarrow> (Some err, dst)
              | Inr content \<Rightarrow>
                 let html = highlightCode E (markdown E (removeMetadata E content));
                     baseLayout =
                       \<lparr>WebsiteTitle = cfg_Title (rd_Config rd),
                        WebsiteOwner = cfg_Owner (rd_Config rd),
                        ContentTitle = post_Title post,
                        ContentDesc = post_Excerpt post,
                        ContentAuthor = post_Author post,
                        Pages = rd_Pages rd\<rparr>;
                     postLayout =
                       \<lparr>pv_Layout = baseLayout,
                        pv_CreatedAt = post_CreatedAt post,
                        pv_UpdatedAt = post_UpdatedAt post,
                        pv_Category = category,
                        pv_Tags = tags,
                        pv_Thumbnail = post_Thumbnail post,
                        pv_HTML = html,
                        pv_Older = olderPost,
                        pv_Newer = newerPost\<rparr>
                 in
                 (case parseFiles E (templates @ [tplPost]) of
                    Inl err \<Rightarrow> (Some err, dst)
                  | Inr tpl \<Rightarrow> executeTemplate E rd tpl dst ''post.html'' (PostData postLayout)))))"

subsection \<open>Names that a path keeps as they are\<close>

text \<open>
  A name is ordinary when none of its slash-separated elements is empty, \<^verbatim>\<open>.\<close> or
  \<^verbatim>\<open>..\<close>: these are the names that \<open>Clean\<close> leaves alone.
\<close>

definition ordinaryElem :: "string \<Rightarrow> bool" where
  "ordinaryElem e \<longleftrightarrow> e \<noteq> [] \<and> e \<noteq> ''.'' \<and> e \<noteq> ''..''"

definition ordinaryName :: "string \<Rightarrow> bool" where
  "ordinaryName name \<longleftrightarrow> list_all ordinaryElem (splitSlash name)"

subsection \<open>A small site to run the renderer on\<close>

text \<open>
  The theme directory \<^verbatim>\<open>site/theme/plain\<close> holds a partial, a subdirectory and the files
  listed in \<open>files\<close>. A parsed template is the list of its files, and executing one writes
  the template's name, the path of the view and, for a post, its tag groups.
\<close>

definition demo_show :: "view_data \<Rightarrow> string" where
  "demo_show data =
     (case data of
        ListData v \<Rightarrow> list_Path v
      | PostData v \<Rightarrow>
          group_Path (pv_Category v)
          @ concat (map (\<lambda>g. '' '' @ group_Name g @ ''='' @ group_Path g) (pv_Tags v)))"

definition demo_env :: "string list \<Rightarrow> (string list) env" where
  "demo_env files =
     \<lparr>fileExists = (\<lambda>p. p \<in> set files),
      readDir = (\<lambda>d. Inr [\<lparr>fi_Name = ''_header.html'', fi_IsDir = False\<rparr>,
                          \<lparr>fi_Name = ''_img.html'', fi_IsDir = True\<rparr>,
                          \<lparr>fi_Name = ''list.html'', fi_IsDir = False\<rparr>]),
      readIndexFile = (\<lambda>p. Inr ''body''),
      removeMetadata = (\<lambda>b. b),
      markdown = (\<lambda>b. b),
      highlightCode = (\<lambda>b. b),
      parseFiles = (\<lambda>fs. Inr fs),
      execute = (\<lambda>tpl name data. (name @ '' '' @ demo_show data, None)),
      minify = (\<lambda>buff. (buff, None)),
      convUndef = (\<lambda>f. - (2 ^ 63))\<rparr>"

definition demo_post :: "string \<Rightarrow> string \<Rightarrow> string list \<Rightarrow> model_Post" where
  "demo_post title category tags =
     \<lparr>post_Path = ''content/'' @ title,
      post_Title = title,
      post_Excerpt = [],
      post_Thumbnail = [],
      post_Author = [],
      post_Category = category,
      post_Tags = tags,
      post_CreatedAt = [],
      post_UpdatedAt = []\<rparr>"

definition demo_site :: "int \<Rightarrow> bool \<Rightarrow> model_Post list \<Rightarrow> Renderer" where
  "demo_site pageSize minimize posts =
     \<lparr>rd_Config =
        \<lparr>cfg_Theme = ''plain'', cfg_Title = ''Site'', cfg_Owner = ''Owner'',
         cfg_Description = [], cfg_Pagination = pageSize\<rparr>,
      rd_Pages = [],
      rd_Posts = posts,
      rd_Tags = [],
      rd_Categories = [],
      rd_Minimize = minimize,
      rd_RootDir = ''site''\<rparr>"

definition demo_data :: view_data where
  "demo_data =
     ListData
       \<lparr>list_Layout = baseLayoutList (demo_site 2 True []) [],
        list_Type = DEFAULT,
        list_Path = ''/posts'',
        list_Posts = [],
        list_Tags = [],
        list_Categories = [],
        CurrentPage = 1,
        MaxPage = 1\<rparr>"

section \<open>Facts about the library functions\<close>

subsection \<open>Powers of two and the binary exponent\<close>

lemma pow2_powi: "pow2 e = 2 powi e"
  by (simp add: pow2_def power_int_def inverse_eq_divide power_one_over)

lemma pow2_pos: "0 < pow2 e"
  by (simp add: pow2_powi)

lemma pow2_add: "pow2 (a + b) = pow2 a * pow2 b"
  by (simp add: pow2_powi power_int_add)

lemma pow2_diff: "pow2 (a - b) = pow2 a / pow2 b"
  by (simp add: pow2_powi power_int_diff)

lemma pow2_less_iff: "pow2 a < pow2 b \<longleftrightarrow> a < b"
proof
  assume "a < b"
  then show "pow2 a < pow2 b"
    by (simp add: pow2_powi power_int_strict_increasing)
next
  assume h: "pow2 a < pow2 b"
  show "a < b"
  proof (rule ccontr)
    assume "\<not> a < b"
    then have "b \<le> a" by simp
    then have "pow2 b \<le> pow2 a"
      by (simp add: pow2_powi power_int_increasing)
    with h show False by simp
  qed
qed

lemma pow2_le_iff: "pow2 a \<le> pow2 b \<longleftrightarrow> a \<le> b"
  using pow2_less_iff [of b a] by (auto simp: not_less [symmetric])

lemma pow2_nat: "0 \<le> e \<Longrightarrow> pow2 e = 2 ^ nat e"
  by (simp add: pow2_def)

lemma bitlen_rat_bounds:
  assumes "0 < (p::int)"
  shows "pow2 (bitlen p - 1) \<le> of_int p" and "of_int p < pow2 (bitlen p)"
proof -
  have b: "1 \<le> bitlen p" using assms by (auto simp: bitlen_alt_def)
  from bitlen_bounds [OF assms]
  have l: "2 ^ nat (bitlen p - 1) \<le> p" and u: "p < 2 ^ nat (bitlen p)" by auto
  have "(of_int (2 ^ nat (bitlen p - 1)) :: rat) \<le> of_int p"
    using l of_int_le_iff by blast
  then show "pow2 (bitlen p - 1) \<le> of_int p"
    using b by (simp add: pow2_nat)
  have "(of_int p :: rat) < of_int (2 ^ nat (bitlen p))"
    using u of_int_less_iff by blast
  then show "of_int p < pow2 (bitlen p)"
    using b by (simp add: pow2_nat)
qed

lemma floor_log2_bounds:
  assumes "0 < x"
  shows "pow2 (floor_log2 x) \<le> x" and "x < pow2 (floor_log2 x + 1)"
proof -
  obtain p q where pq: "quotient_of x = (p, q)" by (cases "quotient_of x")
  then have q: "0 < q" by (rule quotient_of_denom_pos)
  have x: "x = of_int p / of_int q" using pq by (rule quotient_of_div)
  have p: "0 < p" using assms q x by (simp add: zero_less_divide_iff)
  define d where "d = bitlen p - bitlen q"
  have fl: "floor_log2 x = (if pow2 d \<le> x then d else d - 1)"
    by (simp add: floor_log2_def pq d_def Let_def)
  have qpos: "(0::rat) < of_int q" using q by simp
  have "x < pow2 (bitlen p) / pow2 (bitlen q - 1)"
  proof -
    have "x < pow2 (bitlen p) / of_int q"
      unfolding x using bitlen_rat_bounds(2) [OF p] qpos by (simp add: divide_strict_right_mono)
    also have "\<dots> \<le> pow2 (bitlen p) / pow2 (bitlen q - 1)"
      using bitlen_rat_bounds(1) [OF q] pow2_pos [of "bitlen q - 1"] pow2_pos [of "bitlen p"]
      by (simp add: frac_le)
    finally show ?thesis .
  qed
  then have up: "x < pow2 (d + 1)"
    by (simp add: d_def pow2_diff [symmetric] algebra_simps)
  have "pow2 (bitlen p - 1) / pow2 (bitlen q) \<le> x"
  proof -
    have "pow2 (bitlen p - 1) / pow2 (bitlen q) \<le> pow2 (bitlen p - 1) / of_int q"
      using bitlen_rat_bounds(2) [OF q] qpos pow2_pos [of "bitlen p - 1"]
      by (simp add: frac_le)
    also have "\<dots> \<le> x"
      unfolding x using bitlen_rat_bounds(1) [OF p] qpos by (simp add: divide_right_mono)
    finally show ?thesis .
  qed
  then have lo: "pow2 (d - 1) \<le> x"
    by (simp add: d_def pow2_diff [symmetric] algebra_simps)
  show "pow2 (floor_log2 x) \<le> x" using lo by (simp add: fl)
  show "x < pow2 (floor_log2 x + 1)" using up by (auto simp: fl not_le)
qed

subsection \<open>Rounding to the nearest integer, ties to even\<close>

lemma rhe_floor: "round_half_even x = \<lfloor>x\<rfloor> \<or> round_half_even x = \<lfloor>x\<rfloor> + 1"
  by (simp add: round_half_even_def Let_def)

lemma rhe_ge:
  assumes "of_int z \<le> x"
  shows "z \<le> round_half_even x"
proof -
  have "z \<le> \<lfloor>x\<rfloor>" using assms by (simp add: le_floor_iff)
  then show ?thesis using rhe_floor [of x] by auto
qed

lemma rhe_le:
  assumes "x \<le> of_int z"
  shows "round_half_even x \<le> z"
proof (cases "x = of_int \<lfloor>x\<rfloor>")
  case True
  then have "x - of_int \<lfloor>x\<rfloor> = 0" by simp
  then have "round_half_even x = \<lfloor>x\<rfloor>"
    by (simp add: round_half_even_def Let_def)
  moreover have "\<lfloor>x\<rfloor> \<le> z" using assms by (metis floor_mono floor_of_int)
  ultimately show ?thesis by simp
next
  case False
  moreover have "of_int \<lfloor>x\<rfloor> \<le> x" by (rule of_int_floor_le)
  ultimately have "of_int \<lfloor>x\<rfloor> < x" by (metis order.strict_iff_order)
  then have "of_int \<lfloor>x\<rfloor> < (of_int z :: rat)" using assms by simp
  then have "\<lfloor>x\<rfloor> < z" by simp
  then show ?thesis using rhe_floor [of x] by auto
qed

lemma rhe_err: "\<bar>x - of_int (round_half_even x)\<bar> \<le> 1 / 2"
proof -
  have a: "of_int \<lfloor>x\<rfloor> \<le> x" by (rule of_int_floor_le)
  have b: "x < of_int \<lfloor>x\<rfloor> + 1" by linarith
  define d where "d = x - of_int \<lfloor>x\<rfloor>"
  have d: "0 \<le> d" "d < 1" using a b by (simp_all add: d_def)
  have x: "x = of_int \<lfloor>x\<rfloor> + d" by (simp add: d_def)
  have r: "round_half_even x =
      (if d < 1 / 2 then \<lfloor>x\<rfloor> else if 1 / 2 < d then \<lfloor>x\<rfloor> + 1
       else if even \<lfloor>x\<rfloor> then \<lfloor>x\<rfloor> else \<lfloor>x\<rfloor> + 1)"
    by (simp add: round_half_even_def Let_def d_def)
  have "x - of_int (round_half_even x) = d \<or> x - of_int (round_half_even x) = d - 1"
    unfolding r using x by auto
  moreover have "x - of_int (round_half_even x) = d \<Longrightarrow> d \<le> 1 / 2"
    unfolding r using x by (auto split: if_splits)
  moreover have "x - of_int (round_half_even x) = d - 1 \<Longrightarrow> 1 / 2 \<le> d"
    unfolding r using x by (auto split: if_splits)
  ultimately show ?thesis using d by (auto simp: abs_if)
qed

lemma rhe_of_int: "round_half_even (of_int z) = z"
  by (simp add: round_half_even_def)

subsection \<open>Rounding to binary64\<close>

lemma pow2_53: "pow2 53 = 2 ^ 53"
  by (simp add: pow2_def)

lemma round64_between:
  assumes a: "0 < a" and a53: "a < 2 ^ 53"
    and lo: "of_int lo \<le> a" and hi: "a \<le> of_int hi" and hi53: "hi \<le> 2 ^ 53"
  shows "\<exists>r. round64 a = Finite r \<and> of_int lo \<le> r \<and> r \<le> of_int hi \<and>
             \<bar>a - r\<bar> \<le> pow2 (max (floor_log2 a) (- 1022) - 53)"
proof -
  define e where "e = max (floor_log2 a) (- 1022)"
  define j where "j = nat (52 - e)"
  define u where "u = pow2 (e - 52)"
  define m where "m = round_half_even (a / u)"
  have "pow2 (floor_log2 a) < pow2 53"
    using floor_log2_bounds(1) [OF a] a53 by (simp add: pow2_53)
  then have "floor_log2 a < 53" by (simp add: pow2_less_iff)
  then have e52: "e \<le> 52" by (simp add: e_def)
  have "pow2 (e - 52) * pow2 (int j) = pow2 0"
    unfolding pow2_add [symmetric] using e52 by (simp add: j_def)
  then have uj: "u * 2 ^ j = 1"
    by (simp add: u_def pow2_nat pow2_def)
  have upos: "0 < u" by (simp add: u_def pow2_pos)
  have u_eq: "u = 1 / 2 ^ j" using uj by (simp add: field_simps)
  have au: "a / u = a * 2 ^ j" by (simp add: u_eq)
  have "of_int (lo * 2 ^ j) \<le> a / u"
    unfolding au using lo by simp
  then have mlo: "lo * 2 ^ j \<le> m" unfolding m_def by (rule rhe_ge)
  have "a / u \<le> of_int (hi * 2 ^ j)"
    unfolding au using hi by simp
  then have mhi: "m \<le> hi * 2 ^ j" unfolding m_def by (rule rhe_le)
  define r where "r = of_int m * u"
  have r_eq: "r = of_int m / 2 ^ j" by (simp add: r_def u_eq)
  have "(of_int (lo * 2 ^ j) :: rat) \<le> of_int m" using mlo of_int_le_iff by blast
  then have rlo: "of_int lo \<le> r" by (simp add: r_eq field_simps)
  have "(of_int m :: rat) \<le> of_int (hi * 2 ^ j)" using mhi of_int_le_iff by blast
  then have rhi: "r \<le> of_int hi" by (simp add: r_eq field_simps)
  have "\<bar>a / u - of_int m\<bar> \<le> 1 / 2" unfolding m_def by (rule rhe_err)
  then have "\<bar>a / u - of_int m\<bar> * u \<le> (1 / 2) * u"
    using upos by (simp add: mult_right_mono)
  moreover have "\<bar>a / u - of_int m\<bar> * u = \<bar>a - r\<bar>"
  proof -
    have "\<bar>a / u - of_int m\<bar> * u = \<bar>(a / u - of_int m) * u\<bar>"
      using upos by (simp add: abs_mult)
    also have "(a / u - of_int m) * u = a - r"
      using upos by (simp add: r_def field_simps)
    finally show ?thesis .
  qed
  moreover have "(1 / 2) * u = pow2 (e - 53)"
  proof -
    have "pow2 (e - 53) = pow2 (e - 52) * pow2 (- 1)"
      unfolding pow2_add [symmetric] by simp
    then show ?thesis by (simp add: u_def pow2_def)
  qed
  ultimately have err: "\<bar>a - r\<bar> \<le> pow2 (e - 53)" by simp
  have "(of_int hi :: rat) \<le> of_int (2 ^ 53)" using hi53 of_int_le_iff by blast
  then have "r \<le> pow2 53" using rhi by (simp add: pow2_53)
  moreover have "pow2 53 < pow2 1024" by (simp add: pow2_less_iff)
  ultimately have fin: "\<not> pow2 1024 \<le> r" by simp
  have "round64 a = Finite r"
    using a fin by (simp add: round64_def Let_def r_def m_def u_def e_def)
  then show ?thesis using rlo rhi err by (auto simp: e_def)
qed

lemma round64_of_int:
  assumes "0 \<le> n" and "n < 2 ^ 53"
  shows "round64 (of_int n) = Finite (of_int n)"
proof (cases "n = 0")
  case True
  then show ?thesis by (simp add: round64_def)
next
  case False
  then have "0 < (of_int n :: rat)" using assms by simp
  moreover have "(of_int n :: rat) < of_int (2 ^ 53)" using assms(2) of_int_less_iff by blast
  then have "(of_int n :: rat) < 2 ^ 53" by simp
  moreover have "n \<le> 2 ^ 53" using assms by simp
  ultimately obtain r where "round64 (of_int n) = Finite r" "of_int n \<le> r" "r \<le> of_int n"
    using round64_between [of "of_int n" n n] by auto
  then show ?thesis by simp
qed

lemma round64_quotient_ceiling:
  assumes n: "0 < n" "n < 2 ^ 53" and s: "0 < s" "s \<le> 2 ^ 63"
  shows "\<exists>r. round64 (of_int n / of_int s) = Finite r \<and> \<lceil>r\<rceil> = \<lceil>(of_int n / of_int s :: rat)\<rceil>"
proof -
  define a :: rat where "a = of_int n / of_int s"
  define k where "k = \<lceil>a\<rceil>"
  have spos: "(0::rat) < of_int s" using s by simp
  have apos: "0 < a" using n s by (simp add: a_def)
  have "(1::rat) \<le> of_int s" using s by (simp add: of_int_1_le_iff [symmetric] del: of_int_1_le_iff)
  then have "of_int n / of_int s \<le> (of_int n :: rat) / 1"
    using n by (intro divide_left_mono) simp_all
  then have an: "a \<le> of_int n" by (simp add: a_def)
  have n53: "(of_int n :: rat) < 2 ^ 53"
  proof -
    have "(of_int n :: rat) < of_int (2 ^ 53)" using n(2) of_int_less_iff by blast
    then show ?thesis by simp
  qed
  have a53: "a < 2 ^ 53" using an n53 by simp
  have klo: "of_int (k - 1) < a" unfolding k_def using ceiling_correct [of a] by simp
  have khi: "a \<le> of_int k" unfolding k_def by (rule le_of_int_ceiling)
  have kn: "k \<le> n" unfolding k_def using an by (simp add: ceiling_le)
  have k53: "k \<le> 2 ^ 53" using kn n by simp
  from round64_between [OF apos a53 _ khi k53, of "k - 1"] klo
  obtain r where r: "round64 a = Finite r" "of_int (k - 1) \<le> r" "r \<le> of_int k"
    and err: "\<bar>a - r\<bar> \<le> pow2 (max (floor_log2 a) (- 1022) - 53)"
    by auto
  have gap: "of_int (k - 1) + 1 / of_int s \<le> a"
  proof -
    have "of_int (k - 1) * of_int s < (of_int n :: rat)"
      using klo spos by (simp add: a_def pos_less_divide_eq)
    then have "(of_int ((k - 1) * s) :: rat) < of_int n" by simp
    then have "(k - 1) * s < n" using of_int_less_iff by blast
    then have "(k - 1) * s + 1 \<le> n" by simp
    then have "(of_int ((k - 1) * s + 1) :: rat) \<le> of_int n" using of_int_le_iff by blast
    then have "(of_int (k - 1) * of_int s + 1) / of_int s \<le> (of_int n :: rat) / of_int s"
      using spos by (simp add: divide_right_mono)
    then show ?thesis using spos by (simp add: a_def add_divide_distrib)
  qed
  have small: "pow2 (max (floor_log2 a) (- 1022) - 53) < 1 / of_int s"
  proof (cases "- 1022 \<le> floor_log2 a")
    case True
    then have "max (floor_log2 a) (- 1022) = floor_log2 a" by simp
    moreover have "pow2 (floor_log2 a - 53) = pow2 (floor_log2 a) * pow2 (- 53)"
      unfolding pow2_add [symmetric] by simp
    moreover have "pow2 (- 53) = 1 / 2 ^ 53" by (simp add: pow2_def)
    ultimately have "pow2 (max (floor_log2 a) (- 1022) - 53) = pow2 (floor_log2 a) / 2 ^ 53"
      by simp
    also have "\<dots> \<le> a / 2 ^ 53"
      using floor_log2_bounds(1) [OF apos] by (simp add: divide_right_mono)
    also have "\<dots> = (of_int n / 2 ^ 53) / of_int s" by (simp add: a_def)
    also have "\<dots> < 1 / of_int s"
    proof -
      have "(of_int n :: rat) / 2 ^ 53 < 1" using n53 by simp
      then show ?thesis using spos by (rule divide_strict_right_mono)
    qed
    finally show ?thesis .
  next
    case False
    then have "max (floor_log2 a) (- 1022) - 53 = - 1075" by simp
    then have "pow2 (max (floor_log2 a) (- 1022) - 53) = pow2 (- 1075)" by simp
    also have "\<dots> < pow2 (- 63)" by (simp add: pow2_less_iff)
    also have "pow2 (- 63) = 1 / 2 ^ 63" by (simp add: pow2_def)
    also have "\<dots> \<le> 1 / of_int s"
    proof -
      have "(of_int s :: rat) \<le> of_int (2 ^ 63)" using s(2) of_int_le_iff by blast
      then have "(of_int s :: rat) \<le> 2 ^ 63" by simp
      then show ?thesis using spos by (simp add: frac_le)
    qed
    finally show ?thesis .
  qed
  have "of_int (k - 1) < r"
  proof (rule ccontr)
    assume "\<not> of_int (k - 1) < r"
    then have "r = of_int (k - 1)" using r(2) by simp
    then have "a - of_int (k - 1) \<le> pow2 (max (floor_log2 a) (- 1022) - 53)"
      using err by (simp add: abs_le_iff)
    then show False using gap small by simp
  qed
  then have "of_int k - 1 < r" by simp
  then have "\<lceil>r\<rceil> = k" using r(3) by (rule ceiling_unique)
  then show ?thesis using r(1) by (simp add: a_def k_def)
qed

lemma round64_big_int:
  assumes s: "2 ^ 53 \<le> s" "s < 2 ^ 63"
  shows "\<exists>s'. round64 (of_int s) = Finite (of_int s') \<and> 2 ^ 53 \<le> s' \<and> s' \<le> 2 ^ 63"
proof -
  define a :: rat where "a = of_int s"
  define fl where "fl = floor_log2 a"
  have "(of_int (2 ^ 53) :: rat) \<le> of_int s" using s(1) of_int_le_iff by blast
  then have alo: "pow2 53 \<le> a" by (simp add: a_def pow2_def)
  have "(of_int s :: rat) < of_int (2 ^ 63)" using s(2) of_int_less_iff by blast
  then have ahi: "a < pow2 63" by (simp add: a_def pow2_def)
  have apos: "0 < a" using alo pow2_pos [of 53] by simp
  have b1: "pow2 fl \<le> a" and b2: "a < pow2 (fl + 1)"
    unfolding fl_def using floor_log2_bounds [OF apos] by simp_all
  have "pow2 53 < pow2 (fl + 1)" using alo b2 by simp
  then have fl53: "53 \<le> fl" by (simp add: pow2_less_iff)
  have "pow2 fl < pow2 63" using b1 ahi by simp
  then have fl62: "fl \<le> 62" by (simp add: pow2_less_iff)
  define j where "j = nat (fl - 52)"
  have j: "1 \<le> j" "j \<le> 10" using fl53 fl62 by (simp_all add: j_def)
  define u where "u = pow2 (fl - 52)"
  have u_eq: "u = 2 ^ j" using fl53 by (simp add: u_def j_def pow2_nat)
  have upos: "0 < u" by (simp add: u_def pow2_pos)
  define m where "m = round_half_even (a / u)"
  have "pow2 fl / u \<le> a / u" using b1 upos by (simp add: divide_right_mono)
  moreover have "pow2 fl / u = pow2 52" unfolding u_def pow2_diff [symmetric] by simp
  moreover have "pow2 52 = of_int (2 ^ 52)" by (simp add: pow2_def)
  ultimately have "of_int (2 ^ 52) \<le> a / u" by simp
  then have mlo: "2 ^ 52 \<le> m" unfolding m_def by (rule rhe_ge)
  have "a / u < pow2 (fl + 1) / u" using b2 upos by (simp add: divide_strict_right_mono)
  moreover have "pow2 (fl + 1) / u = pow2 53" unfolding u_def pow2_diff [symmetric] by simp
  moreover have "pow2 53 = of_int (2 ^ 53)" by (simp add: pow2_def)
  ultimately have "a / u \<le> of_int (2 ^ 53)" by simp
  then have mhi: "m \<le> 2 ^ 53" unfolding m_def by (rule rhe_le)
  define s' where "s' = m * 2 ^ j"
  have r_eq: "of_int m * u = (of_int s' :: rat)" by (simp add: s'_def u_eq)
  have "(2::int) ^ 52 * 2 ^ 1 \<le> m * 2 ^ j"
    using mlo j(1) by (intro mult_mono power_increasing) simp_all
  then have lo: "2 ^ 53 \<le> s'" by (simp add: s'_def)
  have "m * 2 ^ j \<le> (2::int) ^ 53 * 2 ^ 10"
    using mhi mlo j(2) by (intro mult_mono power_increasing) simp_all
  then have hi: "s' \<le> 2 ^ 63" by (simp add: s'_def)
  have "(of_int s' :: rat) \<le> of_int (2 ^ 63)" using hi of_int_le_iff by blast
  then have "(of_int s' :: rat) \<le> pow2 63" by (simp add: pow2_def)
  moreover have "pow2 63 < pow2 1024" by (simp add: pow2_less_iff)
  ultimately have fin: "\<not> pow2 1024 \<le> of_int m * u" unfolding r_eq by simp
  have emax: "max (floor_log2 a) (- 1022) = fl" using fl53 by (simp add: fl_def)
  have "round64 a = Finite (of_int m * u)"
    using apos fin by (simp add: round64_def Let_def emax m_def u_def)
  then show ?thesis using lo hi by (auto simp: r_eq a_def)
qed

subsection \<open>The page count in exact arithmetic\<close>

lemma f64_of_int_pos:
  assumes "0 < s" "s < 2 ^ 63"
  shows "\<exists>s'. f64_of_int s = Finite (of_int s') \<and> 0 < s' \<and> s' \<le> 2 ^ 63 \<and>
           (s < 2 ^ 53 \<longrightarrow> s' = s) \<and> (2 ^ 53 \<le> s \<longrightarrow> 2 ^ 53 \<le> s')"
proof (cases "s < 2 ^ 53")
  case True
  then have "f64_of_int s = Finite (of_int s)"
    using assms by (simp add: f64_of_int_def round64_of_int)
  then show ?thesis using assms True by auto
next
  case False
  then have "2 ^ 53 \<le> s" by simp
  from round64_big_int [OF this assms(2)]
  obtain s' where "round64 (of_int s) = Finite (of_int s')" "2 ^ 53 \<le> s'" "s' \<le> 2 ^ 63"
    by auto
  then show ?thesis using False by (auto simp: f64_of_int_def)
qed

lemma ceiling_small_quotient:
  assumes "0 < n" "n \<le> s"
  shows "\<lceil>(of_int n / of_int s :: rat)\<rceil> = 1"
proof (rule ceiling_unique)
  show "of_int 1 - 1 < (of_int n / of_int s :: rat)" using assms by simp
  show "(of_int n / of_int s :: rat) \<le> of_int 1" using assms by simp
qed

lemma max_page_ceiling:
  assumes n: "0 \<le> n" "n < 2 ^ 53" and s: "0 < s" "s < 2 ^ 63"
  shows "f64_to_int undef (f64_Ceil (f64_div (f64_of_int n) (f64_of_int s))) =
         \<lceil>(of_int n / of_int s :: rat)\<rceil>"
proof -
  from f64_of_int_pos [OF s]
  obtain s' where s': "f64_of_int s = Finite (of_int s')" "0 < s'" "s' \<le> 2 ^ 63"
    "s < 2 ^ 53 \<longrightarrow> s' = s" "2 ^ 53 \<le> s \<longrightarrow> 2 ^ 53 \<le> s'"
    by blast
  have fn: "f64_of_int n = Finite (of_int n)"
    using n by (simp add: f64_of_int_def round64_of_int)
  show ?thesis
  proof (cases "n = 0")
    case True
    have "f64_of_int n = Finite 0" using True fn by simp
    then show ?thesis using s'(1,2) True by (simp add: round64_def)
  next
    case False
    then have npos: "0 < n" using n by simp
    from round64_quotient_ceiling [OF npos n(2) s'(2,3)]
    obtain r where r: "round64 (of_int n / of_int s') = Finite r"
      "\<lceil>r\<rceil> = \<lceil>(of_int n / of_int s' :: rat)\<rceil>"
      by blast
    have same: "\<lceil>(of_int n / of_int s' :: rat)\<rceil> = \<lceil>(of_int n / of_int s :: rat)\<rceil>"
    proof (cases "s < 2 ^ 53")
      case True
      then show ?thesis using s'(4) by simp
    next
      case False
      then have "n \<le> s" "n \<le> s'" using n(2) s'(5) by simp_all
      then show ?thesis using npos by (simp add: ceiling_small_quotient)
    qed
    define k where "k = \<lceil>(of_int n / of_int s :: rat)\<rceil>"
    have "(of_int n / of_int s :: rat) \<le> of_int n / 1"
      using npos s by (intro divide_left_mono) simp_all
    then have "k \<le> n" unfolding k_def by (simp add: ceiling_le)
    moreover have "0 < k" unfolding k_def using npos s by simp
    ultimately have range: "- (2 ^ 63) \<le> k" "k < 2 ^ 63" using n(2) by simp_all
    have "f64_Ceil (f64_div (f64_of_int n) (f64_of_int s)) = Finite (of_int k)"
      using s'(2) by (simp add: fn s'(1) r same k_def)
    then show ?thesis using range \<open>0 < k\<close> by (simp add: k_def Let_def)
  qed
qed

lemma getMaxPagination_ceiling:
  assumes "length posts < 2 ^ 53"
    and "0 < cfg_Pagination (rd_Config rd)" and "cfg_Pagination (rd_Config rd) < 2 ^ 63"
  shows "getMaxPagination E rd posts =
         \<lceil>(of_int (int (length posts)) / of_int (cfg_Pagination (rd_Config rd)) :: rat)\<rceil>"
proof -
  have "int (length posts) < 2 ^ 53" using assms(1) by (simp add: of_nat_less_iff [symmetric] del: of_nat_less_iff)
  then show ?thesis
    using assms(2,3) by (simp add: getMaxPagination_def Let_def max_page_ceiling)
qed

lemmas getMaxPagination_div = getMaxPagination_ceiling [unfolded ceiling_divide_eq_div]

section \<open>The claims\<close>

subsection \<open>Pagination\<close>

text \<open>
  C2. For a list of \<open>N\<close> posts and a page size \<open>S > 0\<close>, the page count that
  \<open>getMaxPagination\<close> computes is the ceiling of \<open>N / S\<close>, and it is 0 for the empty
  list. The list is one that fits in memory (fewer than \<open>2 ^ 53\<close> posts, so that the
  conversion of its length to \<^verbatim>\<open>float64\<close> is exact), and \<open>S\<close> is a 64-bit integer.
\<close>

theorem getMaxPagination_is_ceiling:
  assumes "length posts < 2 ^ 53"
    and "0 < cfg_Pagination (rd_Config rd)" and "cfg_Pagination (rd_Config rd) < 2 ^ 63"
  shows "getMaxPagination E rd posts =
           \<lceil>real (length posts) / real_of_int (cfg_Pagination (rd_Config rd))\<rceil>
         \<and> getMaxPagination E rd [] = 0"
proof -
  have "\<lceil>real (length posts) / real_of_int (cfg_Pagination (rd_Config rd))\<rceil> =
        \<lceil>real_of_int (int (length posts)) / real_of_int (cfg_Pagination (rd_Config rd))\<rceil>"
    by simp
  also have "\<dots> = - (- int (length posts) div cfg_Pagination (rd_Config rd))"
    by (rule ceiling_divide_eq_div)
  finally have "getMaxPagination E rd posts =
      \<lceil>real (length posts) / real_of_int (cfg_Pagination (rd_Config rd))\<rceil>"
    using getMaxPagination_div [OF assms, of E] by simp
  moreover have "getMaxPagination E rd [] = 0"
    using getMaxPagination_div [of "[]" rd E] assms(2,3) by simp
  ultimately show ?thesis by simp
qed

theorem getMaxPagination_is_ceiling_witness:
  "length [demo_post ''A'' [] [], demo_post ''B'' [] [], demo_post ''C'' [] []] < (2::nat) ^ 53
   \<and> 0 < cfg_Pagination (rd_Config (demo_site 2 False []))
   \<and> cfg_Pagination (rd_Config (demo_site 2 False [])) < 2 ^ 63
   \<and> getMaxPagination (demo_env []) (demo_site 2 False [])
        [demo_post ''A'' [] [], demo_post ''B'' [] [], demo_post ''C'' [] []] = 2
   \<and> getMaxPagination (demo_env []) (demo_site 2 False []) [] = 0"
  using getMaxPagination_is_ceiling
    [of "[demo_post ''A'' [] [], demo_post ''B'' [] [], demo_post ''C'' [] []]"
        "demo_site 2 False []" "demo_env []"]
  by (simp add: demo_site_def)

lemma wrap64_id: "- (2 ^ 63) \<le> x \<Longrightarrow> x < 2 ^ 63 \<Longrightarrow> wrap64 x = x"
  by (simp add: wrap64_def)

lemma drop_take_append:
  "a \<le> b \<Longrightarrow> b \<le> c \<Longrightarrow> drop a (take b xs) @ drop b (take c xs) = drop a (take c xs)"
proof -
  assume ab: "a \<le> b" and bc: "b \<le> c"
  have "take c xs = take b (take c xs) @ drop b (take c xs)"
    by (rule append_take_drop_id [symmetric])
  also have "take b (take c xs) = take b xs" using bc by (simp add: min_def)
  finally have "drop a (take c xs) = drop a (take b xs @ drop b (take c xs))" by simp
  also have "\<dots> = drop a (take b xs) @ drop (a - length (take b xs)) (drop b (take c xs))"
    by simp
  also have "drop (a - length (take b xs)) (drop b (take c xs)) = drop b (take c xs)"
  proof (cases "b \<le> length xs")
    case True
    then show ?thesis using ab by (simp add: min_def)
  next
    case False
    then show ?thesis by simp
  qed
  finally show ?thesis by simp
qed

lemma page_start_in_list:
  assumes "length posts < 2 ^ 53"
    and "0 < cfg_Pagination (rd_Config rd)" and "cfg_Pagination (rd_Config rd) < 2 ^ 63"
    and "p \<le> getMaxPagination E rd posts"
  shows "(p - 1) * cfg_Pagination (rd_Config rd) < int (length posts)"
proof -
  define S where "S = cfg_Pagination (rd_Config rd)"
  define N where "N = int (length posts)"
  have "p \<le> \<lceil>(of_int N / of_int S :: rat)\<rceil>"
    using assms(4) getMaxPagination_ceiling [OF assms(1-3), of E] by (simp add: S_def N_def)
  then have "p - 1 < \<lceil>(of_int N / of_int S :: rat)\<rceil>" by simp
  then have "of_int (p - 1) < (of_int N / of_int S :: rat)" by (simp only: less_ceiling_iff)
  moreover have "(0::rat) < of_int S" using assms(2) by (simp add: S_def)
  ultimately have "of_int (p - 1) * of_int S < (of_int N :: rat)"
    by (simp add: pos_less_divide_eq)
  then have "(of_int ((p - 1) * S) :: rat) < of_int N" by simp
  then show ?thesis unfolding S_def N_def using of_int_less_iff by blast
qed

lemma getListPosts_window:
  assumes N: "length posts < 2 ^ 53"
    and S: "0 < cfg_Pagination (rd_Config rd)" "cfg_Pagination (rd_Config rd) < 2 ^ 63"
    and p: "1 \<le> p" "p \<le> getMaxPagination E rd posts"
  shows "getListPosts rd posts p =
         Inr (drop (nat ((p - 1) * cfg_Pagination (rd_Config rd)))
                (take (nat (p * cfg_Pagination (rd_Config rd))) posts))"
proof -
  define S where "S = cfg_Pagination (rd_Config rd)"
  define n where "n = int (length posts)"
  have S1: "0 < S" "S < 2 ^ 63" using S by (simp_all add: S_def)
  have n53: "n < 2 ^ 53" using N by (simp add: n_def of_nat_less_iff [symmetric] del: of_nat_less_iff)
  have st: "(p - 1) * S < n"
    using page_start_in_list [OF N S p(2)] by (simp add: S_def n_def)
  have st0: "0 \<le> (p - 1) * S" using p(1) S1 by simp
  have "p - 1 \<le> (p - 1) * S" using p(1) S1 by (simp add: mult_le_cancel_left1)
  then have p1: "0 \<le> p - 1" "p - 1 < 2 ^ 53" using st n53 p(1) by simp_all
  have w1: "wrap64 (p - 1) = p - 1" using p1 by (simp add: wrap64_id)
  have w2: "wrap64 ((p - 1) * S) = (p - 1) * S" using st st0 n53 by (simp add: wrap64_id)
  have sum: "(p - 1) * S + S = p * S" by (simp add: algebra_simps)
  have w3: "wrap64 (p * S) = p * S"
  proof (cases "p = 1")
    case True
    then show ?thesis using S1 by (simp add: wrap64_id)
  next
    case False
    then have "1 \<le> p - 1" using p(1) by simp
    then have "S \<le> (p - 1) * S" using S1 by (simp add: mult_le_cancel_right1)
    then have "S < 2 ^ 53" using st n53 by simp
    then have "p * S < 2 ^ 54" using st n53 sum by simp
    moreover have "0 \<le> p * S" using p(1) S1 by simp
    ultimately show ?thesis by (simp add: wrap64_id)
  qed
  have "(p - 1) * S \<le> p * S" using sum S1 by simp
  then have le: "(p - 1) * S \<le> (if n < p * S then n else p * S)" using st by simp
  have tk: "take (nat (if n < p * S then n else p * S)) posts = take (nat (p * S)) posts"
    by (simp add: n_def)
  show ?thesis
    unfolding getListPosts_def Let_def S_def [symmetric] n_def [symmetric] w1 w2 sum w3
    using st0 le tk by simp
qed

text \<open>
  C3. For a list of \<open>N\<close> posts, a page size \<open>S > 0\<close> and a page number \<open>p\<close> from 1 to the
  page count, \<open>getListPosts\<close> returns the slice from \<open>(p - 1) * S\<close> up to \<open>p * S\<close>, cut at
  the end of the list; it has \<open>min S (N - (p - 1) * S)\<close> posts, and the window of the next
  page starts where this one ends: the two together are the slice from \<open>(p - 1) * S\<close> up
  to \<open>(p + 1) * S\<close>.
\<close>

theorem getListPosts_page_window:
  assumes "length posts < 2 ^ 53"
    and "0 < cfg_Pagination (rd_Config rd)" and "cfg_Pagination (rd_Config rd) < 2 ^ 63"
    and "1 \<le> p" and "p \<le> getMaxPagination E rd posts"
  shows "\<exists>w. getListPosts rd posts p = Inr w
           \<and> w = drop (nat ((p - 1) * cfg_Pagination (rd_Config rd)))
                   (take (nat (p * cfg_Pagination (rd_Config rd))) posts)
           \<and> int (length w) =
               min (cfg_Pagination (rd_Config rd))
                 (int (length posts) - (p - 1) * cfg_Pagination (rd_Config rd))
           \<and> (p + 1 \<le> getMaxPagination E rd posts \<longrightarrow>
                (\<exists>w'. getListPosts rd posts (p + 1) = Inr w'
                   \<and> w @ w' = drop (nat ((p - 1) * cfg_Pagination (rd_Config rd)))
                                (take (nat ((p + 1) * cfg_Pagination (rd_Config rd))) posts)))"
proof -
  define S where "S = cfg_Pagination (rd_Config rd)"
  define w where "w = drop (nat ((p - 1) * S)) (take (nat (p * S)) posts)"
  have S0: "0 < S" using assms(2) by (simp add: S_def)
  have win: "getListPosts rd posts p = Inr w"
    using getListPosts_window [OF assms] by (simp add: w_def S_def)
  have st: "(p - 1) * S < int (length posts)"
    using page_start_in_list [OF assms(1-3,5)] by (simp add: S_def)
  have eq: "p * S = (p - 1) * S + S" by (simp add: algebra_simps)
  have st0: "0 \<le> (p - 1) * S" using assms(4) S0 by simp
  have len: "int (length w) = min S (int (length posts) - (p - 1) * S)"
  proof -
    define a where "a = nat ((p - 1) * S)"
    define s where "s = nat S"
    have a: "(p - 1) * S = int a" and s: "S = int s" using st0 S0 by (simp_all add: a_def s_def)
    have "p * S = int (a + s)" using eq a s by simp
    then have ps: "nat (p * S) = a + s" by (simp only: nat_int)
    have "a < length posts" using st unfolding a by simp
    moreover have "length w = min (length posts) (a + s) - a"
      unfolding w_def ps a_def [symmetric] by simp
    ultimately have "int (length w) = min (int s) (int (length posts) - int a)"
      by (auto simp: min_def)
    then show ?thesis by (simp only: a [symmetric] s [symmetric])
  qed
  have adj: "\<exists>w'. getListPosts rd posts (p + 1) = Inr w'
                 \<and> w @ w' = drop (nat ((p - 1) * S)) (take (nat ((p + 1) * S)) posts)"
    if next_page: "p + 1 \<le> getMaxPagination E rd posts"
  proof -
    have "1 \<le> p + 1" using assms(4) by simp
    from getListPosts_window [OF assms(1-3) this next_page]
    have w': "getListPosts rd posts (p + 1) =
              Inr (drop (nat (p * S)) (take (nat ((p + 1) * S)) posts))"
      by (simp add: S_def)
    have "nat ((p - 1) * S) \<le> nat (p * S)" using eq S0 by simp
    moreover have "nat (p * S) \<le> nat ((p + 1) * S)" using S0 by (simp add: algebra_simps)
    ultimately have "w @ drop (nat (p * S)) (take (nat ((p + 1) * S)) posts) =
                     drop (nat ((p - 1) * S)) (take (nat ((p + 1) * S)) posts)"
      unfolding w_def by (rule drop_take_append)
    then show ?thesis using w' by simp
  qed
  show ?thesis
    using win len adj unfolding S_def [symmetric] w_def [symmetric] by blast
qed

theorem getListPosts_page_window_witness:
  "length [demo_post ''A'' [] [], demo_post ''B'' [] [], demo_post ''C'' [] []] < (2::nat) ^ 53
   \<and> 0 < cfg_Pagination (rd_Config (demo_site 2 False []))
   \<and> cfg_Pagination (rd_Config (demo_site 2 False [])) < 2 ^ 63
   \<and> (1::int) \<le> 1
   \<and> 1 + 1 \<le> getMaxPagination (demo_env []) (demo_site 2 False [])
                 [demo_post ''A'' [] [], demo_post ''B'' [] [], demo_post ''C'' [] []]
   \<and> getListPosts (demo_site 2 False [])
        [demo_post ''A'' [] [], demo_post ''B'' [] [], demo_post ''C'' [] []] 1
      = Inr [demo_post ''A'' [] [], demo_post ''B'' [] []]
   \<and> getListPosts (demo_site 2 False [])
        [demo_post ''A'' [] [], demo_post ''B'' [] [], demo_post ''C'' [] []] (1 + 1)
      = Inr [demo_post ''C'' [] []]"
proof -
  have mp: "getMaxPagination (demo_env []) (demo_site 2 False [])
              [demo_post ''A'' [] [], demo_post ''B'' [] [], demo_post ''C'' [] []] = 2"
    by (simp add: getMaxPagination_div demo_site_def)
  show ?thesis
    using getListPosts_page_window
      [of "[demo_post ''A'' [] [], demo_post ''B'' [] [], demo_post ''C'' [] []]"
          "demo_site 2 False []" 1 "demo_env []"]
    by (simp add: mp) (simp add: demo_site_def)
qed

subsection \<open>The small site, evaluated\<close>

lemma demo_themeDir: "themeDir (demo_site S m posts) = ''site/theme/plain''"
  by (simp add: themeDir_def demo_site_def Join_def Clean_def)

lemma demo_tpl_paths:
  "Join [''site/theme/plain'', ''list.html''] = ''site/theme/plain/list.html''"
  "Join [''site/theme/plain'', ''frontpage.html''] = ''site/theme/plain/frontpage.html''"
  "Join [''site/theme/plain'', ''post.html''] = ''site/theme/plain/post.html''"
  "Join [''site/theme/plain'', ''_header.html''] = ''site/theme/plain/_header.html''"
  by (simp_all add: Join_def Clean_def)

lemma demo_base:
  "getBaseTemplates (demo_env files) (demo_site S m posts) = Inr [''site/theme/plain/_header.html'']"
  by (simp add: getBaseTemplates_def demo_themeDir demo_env_def HasSuffix_def HasPrefix_def
      demo_tpl_paths)

lemma demo_env_sel:
  "fileExists (demo_env files) p \<longleftrightarrow> p \<in> set files"
  "readDir (demo_env files) d =
     Inr [\<lparr>fi_Name = ''_header.html'', fi_IsDir = False\<rparr>,
          \<lparr>fi_Name = ''_img.html'', fi_IsDir = True\<rparr>,
          \<lparr>fi_Name = ''list.html'', fi_IsDir = False\<rparr>]"
  "readIndexFile (demo_env files) p = Inr ''body''"
  "removeMetadata (demo_env files) b = b"
  "markdown (demo_env files) b = b"
  "highlightCode (demo_env files) b = b"
  "parseFiles (demo_env files) fs = Inr fs"
  "execute (demo_env files) tpl name data = (name @ '' '' @ demo_show data, None)"
  "minify (demo_env files) b = (b, None)"
  by (simp_all add: demo_env_def)

lemma demo_post_sel:
  "post_Category (demo_post title category tags) = category"
  "post_Tags (demo_post title category tags) = tags"
  "post_Author (demo_post title category tags) = []"
  "post_Path (demo_post title category tags) = ''content/'' @ title"
  by (simp_all add: demo_post_def)

lemma demo_config:
  "validateConfig (demo_site S m posts) = None"
  "cfg_Pagination (rd_Config (demo_site S m posts)) = S"
  "cfg_Theme (rd_Config (demo_site S m posts)) = ''plain''"
  "rd_Posts (demo_site S m posts) = posts"
  "rd_Minimize (demo_site S m posts) = m"
  by (simp_all add: validateConfig_def demo_site_def)

subsection \<open>The output pipeline\<close>

text \<open>
  C9. With minification on, \<open>executeTemplate\<close> runs the template into a buffer of its
  own: when the execution fails, the destination is left as it was and the error of the
  execution is returned as it is; when the execution succeeds, what the minifier writes is
  appended and the minifier's error (or none) is returned as it is.
\<close>

theorem executeTemplate_minimize_buffers:
  assumes "rd_Minimize rd"
  shows "(\<forall>buff err. execute E tpl name data = (buff, Some err) \<longrightarrow>
            executeTemplate E rd tpl w name data = (Some err, w))
       \<and> (\<forall>buff out merr. execute E tpl name data = (buff, None) \<longrightarrow>
            minify E buff = (out, merr) \<longrightarrow>
            executeTemplate E rd tpl w name data = (merr, w @ out))"
  using assms by (simp add: executeTemplate_def)

theorem executeTemplate_minimize_buffers_witness:
  "rd_Minimize (demo_site 2 True [])
   \<and> execute (demo_env [] \<lparr>execute := \<lambda>tpl name data. (''<p'', Some (Foreign ''exec''))\<rparr>)
        [] ''list.html'' demo_data = (''<p'', Some (Foreign ''exec''))
   \<and> executeTemplate (demo_env [] \<lparr>execute := \<lambda>tpl name data. (''<p'', Some (Foreign ''exec''))\<rparr>)
        (demo_site 2 True []) [] ''old'' ''list.html'' demo_data = (Some (Foreign ''exec''), ''old'')
   \<and> execute (demo_env [] \<lparr>minify := \<lambda>buff. (''<m'', Some (Foreign ''min''))\<rparr>)
        [] ''list.html'' demo_data = (''list.html /posts'', None)
   \<and> minify (demo_env [] \<lparr>minify := \<lambda>buff. (''<m'', Some (Foreign ''min''))\<rparr>)
        ''list.html /posts'' = (''<m'', Some (Foreign ''min''))
   \<and> executeTemplate (demo_env [] \<lparr>minify := \<lambda>buff. (''<m'', Some (Foreign ''min''))\<rparr>)
        (demo_site 2 True []) [] ''old'' ''list.html'' demo_data = (Some (Foreign ''min''), ''old<m'')"
  using executeTemplate_minimize_buffers
      [of "demo_site 2 True []"
          "demo_env [] \<lparr>execute := \<lambda>tpl name data. (''<p'', Some (Foreign ''exec''))\<rparr>"
          "[]" "''list.html''" demo_data "''old''"]
    executeTemplate_minimize_buffers
      [of "demo_site 2 True []"
          "demo_env [] \<lparr>minify := \<lambda>buff. (''<m'', Some (Foreign ''min''))\<rparr>"
          "[]" "''list.html''" demo_data "''old''"]
  by (simp add: demo_config demo_env_def demo_data_def demo_show_def)

subsection \<open>Rendering a list\<close>

text \<open>
  C1. In \<open>RenderList\<close>, a page number below 1 gives what page 1 gives. When the
  configuration is valid, the list template exists and the theme directory can be read,
  a page number (after that) above the page count gives the result \<^verbatim>\<open>(-1, nil)\<close> and
  leaves the destination as it was, for every list type and group name.
\<close>

theorem RenderList_page_bounds:
  "(pageNumber < 1 \<longrightarrow>
      RenderList E rd listType groupName pageNumber dst = RenderList E rd listType groupName 1 dst)
   \<and> (cfg_Theme (rd_Config rd) \<noteq> [] \<and> fileExists E (Join [themeDir rd, ''list.html''])
        \<and> readDir E (themeDir rd) = Inr items
        \<and> getMaxPagination E rd (listPostsOf rd listType groupName) < max 1 pageNumber \<longrightarrow>
      RenderList E rd listType groupName pageNumber dst = (Inr (- 1), dst))"
  by (auto simp: RenderList_def validateConfig_def getBaseTemplates_def Let_def max_def)

theorem RenderList_page_bounds_witness:
  "(0::int) < 1
   \<and> RenderList (demo_env [''site/theme/plain/list.html''])
        (demo_site 2 False [demo_post ''A'' [] [], demo_post ''B'' [] [], demo_post ''C'' [] []])
        DEFAULT [] 0 []
      = RenderList (demo_env [''site/theme/plain/list.html''])
          (demo_site 2 False [demo_post ''A'' [] [], demo_post ''B'' [] [], demo_post ''C'' [] []])
          DEFAULT [] 1 []
   \<and> cfg_Theme (rd_Config
        (demo_site 2 False [demo_post ''A'' [] [], demo_post ''B'' [] [], demo_post ''C'' [] []])) \<noteq> []
   \<and> fileExists (demo_env [''site/theme/plain/list.html''])
        (Join [themeDir
           (demo_site 2 False [demo_post ''A'' [] [], demo_post ''B'' [] [], demo_post ''C'' [] []]),
           ''list.html''])
   \<and> getMaxPagination (demo_env [''site/theme/plain/list.html''])
        (demo_site 2 False [demo_post ''A'' [] [], demo_post ''B'' [] [], demo_post ''C'' [] []])
        (listPostsOf
           (demo_site 2 False [demo_post ''A'' [] [], demo_post ''B'' [] [], demo_post ''C'' [] []])
           DEFAULT []) < max 1 3
   \<and> RenderList (demo_env [''site/theme/plain/list.html''])
        (demo_site 2 False [demo_post ''A'' [] [], demo_post ''B'' [] [], demo_post ''C'' [] []])
        DEFAULT [] 3 ''old''
      = (Inr (- 1), ''old'')"
proof -
  have rd: "readDir (demo_env [''site/theme/plain/list.html'']) d =
      Inr [\<lparr>fi_Name = ''_header.html'', fi_IsDir = False\<rparr>,
           \<lparr>fi_Name = ''_img.html'', fi_IsDir = True\<rparr>,
           \<lparr>fi_Name = ''list.html'', fi_IsDir = False\<rparr>]" for d
    by (simp add: demo_env_def)
  have fe: "fileExists (demo_env [''site/theme/plain/list.html'']) ''site/theme/plain/list.html''"
    by (simp add: demo_env_def)
  show ?thesis
    using RenderList_page_bounds
      [of 0 "demo_env [''site/theme/plain/list.html'']"
          "demo_site 2 False [demo_post ''A'' [] [], demo_post ''B'' [] [], demo_post ''C'' [] []]"
          DEFAULT "[]" "[]"]
      RenderList_page_bounds
      [of 3 "demo_env [''site/theme/plain/list.html'']"
          "demo_site 2 False [demo_post ''A'' [] [], demo_post ''B'' [] [], demo_post ''C'' [] []]"
          DEFAULT "[]" "''old''"
          "[\<lparr>fi_Name = ''_header.html'', fi_IsDir = False\<rparr>,
            \<lparr>fi_Name = ''_img.html'', fi_IsDir = True\<rparr>,
            \<lparr>fi_Name = ''list.html'', fi_IsDir = False\<rparr>]"]
    by (simp add: demo_themeDir demo_tpl_paths demo_config rd fe listPostsOf_def
        getMaxPagination_div)
qed

lemma RenderList_count:
  "RenderList E rd listType groupName pageNumber dst = (Inr n, w) \<Longrightarrow>
     n = - 1 \<or> n = int (length (listPostsOf rd listType groupName))"
  by (auto simp: RenderList_def Let_def split: option.splits sum.splits if_splits prod.splits)

text \<open>
  C4. The category list holds exactly the posts of the renderer whose category equals the
  group name, where the group name \<^verbatim>\<open>uncategorized\<close> stands for the empty category, in
  their order. So a post without category is in the list of \<^verbatim>\<open>uncategorized\<close>, a post with
  a category \<open>x\<close> is in no list but that of \<open>x\<close>, and for a group name other than
  \<^verbatim>\<open>uncategorized\<close> the list holds the posts of that category. The count that
  \<open>RenderList\<close> returns after rendering is the length of this list.
\<close>

theorem RenderList_category_filter:
  "listPostsOf rd CATEGORY groupName =
     filter (\<lambda>post. post_Category post = (if groupName = ''uncategorized'' then [] else groupName))
       (rd_Posts rd)
   \<and> (post \<in> set (listPostsOf rd CATEGORY ''uncategorized'') \<longleftrightarrow>
        post \<in> set (rd_Posts rd) \<and> post_Category post = [])
   \<and> (post_Category post \<noteq> [] \<longrightarrow> post \<in> set (listPostsOf rd CATEGORY groupName) \<longrightarrow>
        groupName = post_Category post)
   \<and> (groupName \<noteq> ''uncategorized'' \<longrightarrow>
        (post \<in> set (listPostsOf rd CATEGORY groupName) \<longleftrightarrow>
         post \<in> set (rd_Posts rd) \<and> post_Category post = groupName))
   \<and> (RenderList E rd CATEGORY groupName pageNumber dst = (Inr n, w) \<longrightarrow> n \<noteq> - 1 \<longrightarrow>
        n = int (length (filter
              (\<lambda>post. post_Category post = (if groupName = ''uncategorized'' then [] else groupName))
              (rd_Posts rd))))"
proof -
  have f: "listPostsOf rd CATEGORY g =
     filter (\<lambda>post. post_Category post = (if g = ''uncategorized'' then [] else g)) (rd_Posts rd)"
    for g
    by (simp add: listPostsOf_def groupNameOf_def filterCategory_def [abs_def])
  have "RenderList E rd CATEGORY groupName pageNumber dst = (Inr n, w) \<longrightarrow> n \<noteq> - 1 \<longrightarrow>
        n = int (length (listPostsOf rd CATEGORY groupName))"
    using RenderList_count [of E rd CATEGORY groupName pageNumber dst n w] by blast
  then show ?thesis unfolding f by auto
qed

theorem RenderList_category_filter_witness:
  "post_Category (demo_post ''B'' ''x'' []) \<noteq> []
   \<and> demo_post ''B'' ''x'' [] \<in> set (listPostsOf
        (demo_site 2 False [demo_post ''A'' [] [], demo_post ''B'' ''x'' []]) CATEGORY ''x'')
   \<and> ''x'' \<noteq> ''uncategorized''
   \<and> listPostsOf (demo_site 2 False [demo_post ''A'' [] [], demo_post ''B'' ''x'' []])
        CATEGORY ''x'' = [demo_post ''B'' ''x'' []]
   \<and> listPostsOf (demo_site 2 False [demo_post ''A'' [] [], demo_post ''B'' ''x'' []])
        CATEGORY ''uncategorized'' = [demo_post ''A'' [] []]
   \<and> RenderList (demo_env [''site/theme/plain/list.html''])
        (demo_site 2 False [demo_post ''A'' [] [], demo_post ''B'' ''x'' []]) CATEGORY ''x'' 1 []
      = (Inr 1, ''list.html /category/x'')
   \<and> (1::int) \<noteq> - 1"
proof -
  have run: "RenderList (demo_env [''site/theme/plain/list.html''])
        (demo_site 2 False [demo_post ''A'' [] [], demo_post ''B'' ''x'' []]) CATEGORY ''x'' 1 []
      = (Inr 1, ''list.html /category/x'')"
    by (simp add: RenderList_def demo_config demo_themeDir demo_tpl_paths demo_base Let_def
        listPostsOf_def groupNameOf_def filterCategory_def demo_post_sel getMaxPagination_div
        getListPosts_def wrap64_def listPathOf_def Join_def Clean_def executeTemplate_def
        demo_env_sel demo_show_def)
  show ?thesis
    using RenderList_category_filter
      [of "demo_site 2 False [demo_post ''A'' [] [], demo_post ''B'' ''x'' []]" "''x''"
          "demo_post ''B'' ''x'' []" "demo_env [''site/theme/plain/list.html'']" 1 "[]" 1
          "''list.html /category/x''"]
      RenderList_category_filter
      [of "demo_site 2 False [demo_post ''A'' [] [], demo_post ''B'' ''x'' []]" "''uncategorized''"
          "demo_post ''B'' ''x'' []" "demo_env [''site/theme/plain/list.html'']" 1 "[]" 1
          "''list.html /category/x''"]
    by (simp add: run) (simp add: demo_config demo_post_sel listPostsOf_def groupNameOf_def
        filterCategory_def)
qed

subsection \<open>Rendering the front page\<close>

text \<open>
  C6. With a valid configuration and a readable theme directory, \<open>RenderFrontPage\<close>
  executes the template \<^verbatim>\<open>frontpage.html\<close>, parsed from the partials and the front-page
  file, when that file exists; when it does not and \<^verbatim>\<open>list.html\<close> exists, it executes
  \<^verbatim>\<open>list.html\<close>, parsed from the partials and the list file (in both cases once the
  first page of posts is cut and the files parse); when neither exists it returns the
  error that the template is missing and writes nothing.
\<close>

theorem RenderFrontPage_template_choice:
  assumes "cfg_Theme (rd_Config rd) \<noteq> []"
    and "readDir E (themeDir rd) = Inr items"
  shows "(fileExists E (Join [themeDir rd, ''frontpage.html'']) \<longrightarrow>
          getListPosts rd (rd_Posts rd) 1 = Inr window \<longrightarrow>
          parseFiles E (baseItems (themeDir rd) items @ [Join [themeDir rd, ''frontpage.html'']])
            = Inr tpl \<longrightarrow>
          (\<exists>view. RenderFrontPage E rd dst =
             executeTemplate E rd tpl dst ''frontpage.html'' (ListData view)))
       \<and> (\<not> fileExists E (Join [themeDir rd, ''frontpage.html'']) \<longrightarrow>
          fileExists E (Join [themeDir rd, ''list.html'']) \<longrightarrow>
          getListPosts rd (rd_Posts rd) 1 = Inr window \<longrightarrow>
          parseFiles E (baseItems (themeDir rd) items @ [Join [themeDir rd, ''list.html'']])
            = Inr tpl \<longrightarrow>
          (\<exists>view. RenderFrontPage E rd dst =
             executeTemplate E rd tpl dst ''list.html'' (ListData view)))
       \<and> (\<not> fileExists E (Join [themeDir rd, ''frontpage.html'']) \<longrightarrow>
          \<not> fileExists E (Join [themeDir rd, ''list.html'']) \<longrightarrow>
          RenderFrontPage E rd dst =
            (Some (Errorf ''Template for frontpage and list is not exist''), dst))"
  using assms
  by (auto simp: RenderFrontPage_def validateConfig_def getBaseTemplates_def Let_def)

theorem RenderFrontPage_template_choice_witness:
  "cfg_Theme (rd_Config (demo_site 2 False [demo_post ''A'' [] []])) \<noteq> []
   \<and> getListPosts (demo_site 2 False [demo_post ''A'' [] []])
        (rd_Posts (demo_site 2 False [demo_post ''A'' [] []])) 1 = Inr [demo_post ''A'' [] []]
   \<and> fileExists (demo_env [''site/theme/plain/frontpage.html'', ''site/theme/plain/list.html''])
        (Join [themeDir (demo_site 2 False [demo_post ''A'' [] []]), ''frontpage.html''])
   \<and> RenderFrontPage (demo_env [''site/theme/plain/frontpage.html'', ''site/theme/plain/list.html''])
        (demo_site 2 False [demo_post ''A'' [] []]) ''old'' = (None, ''oldfrontpage.html /posts'')
   \<and> \<not> fileExists (demo_env [''site/theme/plain/list.html''])
        (Join [themeDir (demo_site 2 False [demo_post ''A'' [] []]), ''frontpage.html''])
   \<and> fileExists (demo_env [''site/theme/plain/list.html''])
        (Join [themeDir (demo_site 2 False [demo_post ''A'' [] []]), ''list.html''])
   \<and> RenderFrontPage (demo_env [''site/theme/plain/list.html''])
        (demo_site 2 False [demo_post ''A'' [] []]) ''old'' = (None, ''oldlist.html /posts'')
   \<and> \<not> fileExists (demo_env [])
        (Join [themeDir (demo_site 2 False [demo_post ''A'' [] []]), ''list.html''])
   \<and> RenderFrontPage (demo_env []) (demo_site 2 False [demo_post ''A'' [] []]) ''old''
       = (Some (Errorf ''Template for frontpage and list is not exist''), ''old'')"
proof -
  let ?rd = "demo_site 2 False [demo_post ''A'' [] []]"
  let ?items = "[\<lparr>fi_Name = ''_header.html'', fi_IsDir = False\<rparr>,
                 \<lparr>fi_Name = ''_img.html'', fi_IsDir = True\<rparr>,
                 \<lparr>fi_Name = ''list.html'', fi_IsDir = False\<rparr>]"
  have win: "getListPosts ?rd [demo_post ''A'' [] []] 1 = Inr [demo_post ''A'' [] []]"
    by (simp add: getListPosts_def demo_config wrap64_def)
  have ex: "executeTemplate (demo_env fs) ?rd tpl ''old'' name (ListData view) =
            (None, ''old'' @ name @ '' '' @ list_Path view)" for fs tpl name view
    by (simp add: executeTemplate_def demo_config demo_env_sel demo_show_def)
  have run1: "RenderFrontPage
        (demo_env [''site/theme/plain/frontpage.html'', ''site/theme/plain/list.html''])
        ?rd ''old'' = (None, ''oldfrontpage.html /posts'')"
    by (simp add: RenderFrontPage_def demo_config demo_themeDir demo_tpl_paths demo_env_sel
        demo_base win ex Let_def)
  have run2: "RenderFrontPage (demo_env [''site/theme/plain/list.html'']) ?rd ''old''
        = (None, ''oldlist.html /posts'')"
    by (simp add: RenderFrontPage_def demo_config demo_themeDir demo_tpl_paths demo_env_sel
        demo_base win ex Let_def)
  show ?thesis
    using RenderFrontPage_template_choice
        [of ?rd "demo_env [''site/theme/plain/frontpage.html'', ''site/theme/plain/list.html'']"
            ?items "[demo_post ''A'' [] []]"
            "[''site/theme/plain/_header.html'', ''site/theme/plain/frontpage.html'']" "''old''"]
      RenderFrontPage_template_choice
        [of ?rd "demo_env [''site/theme/plain/list.html'']"
            ?items "[demo_post ''A'' [] []]"
            "[''site/theme/plain/_header.html'', ''site/theme/plain/list.html'']" "''old''"]
      RenderFrontPage_template_choice
        [of ?rd "demo_env []" ?items "[demo_post ''A'' [] []]" "[]" "''old''"]
    by (simp add: demo_config(2-) demo_themeDir demo_tpl_paths demo_env_sel win run1 run2)
qed

text \<open>
  C10, as stated, fails on a renderer with an empty post list, a valid theme and a
  front-page template whose page size is negative: the slice expression of
  \<open>getListPosts\<close> panics.
\<close>

theorem RenderFrontPage_empty_list_counterexample:
  "RenderFrontPage (demo_env [''site/theme/plain/frontpage.html''])
     (demo_site (- 1) False []) ''old''
   = (Some (Panic ''slice bounds out of range''), ''old'')"
  by (simp add: RenderFrontPage_def demo_config demo_themeDir demo_tpl_paths demo_env_sel
      demo_base getListPosts_def wrap64_def Let_def)

text \<open>
  C10, amended. \<open>RenderFrontPage\<close> checks no page range: for a renderer with an empty post
  list and a page size of at least 1 (valid theme, readable directory, a front-page or
  list template that parses), it executes the template on a list view with current
  page 1, page count 0 and no posts, so the current page is above the page count.
\<close>

theorem RenderFrontPage_empty_list:
  assumes "cfg_Theme (rd_Config rd) \<noteq> []"
    and "readDir E (themeDir rd) = Inr items"
    and "rd_Posts rd = []"
    and "0 < cfg_Pagination (rd_Config rd)" and "cfg_Pagination (rd_Config rd) < 2 ^ 63"
    and "(fileExists E (Join [themeDir rd, ''frontpage.html'']) \<and> name = ''frontpage.html''
          \<and> ts = baseItems (themeDir rd) items @ [Join [themeDir rd, ''frontpage.html'']])
       \<or> (\<not> fileExists E (Join [themeDir rd, ''frontpage.html''])
          \<and> fileExists E (Join [themeDir rd, ''list.html'']) \<and> name = ''list.html''
          \<and> ts = baseItems (themeDir rd) items @ [Join [themeDir rd, ''list.html'']])"
    and "parseFiles E ts = Inr tpl"
  shows "\<exists>view. RenderFrontPage E rd dst = executeTemplate E rd tpl dst name (ListData view)
           \<and> CurrentPage view = 1 \<and> MaxPage view = 0 \<and> list_Posts view = []
           \<and> MaxPage view < CurrentPage view"
proof -
  have mp: "getMaxPagination E rd [] = 0"
    using getMaxPagination_div [of "[]" rd E] assms(4,5) by simp
  have win: "getListPosts rd [] 1 = Inr []"
    using assms(4,5) by (simp add: getListPosts_def wrap64_def Let_def)
  show ?thesis
    using assms(1,2,3,6,7)
    by (auto simp: RenderFrontPage_def validateConfig_def getBaseTemplates_def Let_def mp win)
qed

theorem RenderFrontPage_empty_list_witness:
  "cfg_Theme (rd_Config (demo_site 2 False [])) \<noteq> []
   \<and> rd_Posts (demo_site 2 False []) = []
   \<and> 0 < cfg_Pagination (rd_Config (demo_site 2 False []))
   \<and> cfg_Pagination (rd_Config (demo_site 2 False [])) < 2 ^ 63
   \<and> \<not> fileExists (demo_env [''site/theme/plain/list.html''])
        (Join [themeDir (demo_site 2 False []), ''frontpage.html''])
   \<and> fileExists (demo_env [''site/theme/plain/list.html''])
        (Join [themeDir (demo_site 2 False []), ''list.html''])
   \<and> parseFiles (demo_env [''site/theme/plain/list.html''])
        [''site/theme/plain/_header.html'', ''site/theme/plain/list.html'']
       = Inr [''site/theme/plain/_header.html'', ''site/theme/plain/list.html'']
   \<and> (\<exists>view. RenderFrontPage (demo_env [''site/theme/plain/list.html''])
                 (demo_site 2 False []) ''old''
               = executeTemplate (demo_env [''site/theme/plain/list.html'']) (demo_site 2 False [])
                   [''site/theme/plain/_header.html'', ''site/theme/plain/list.html''] ''old''
                   ''list.html'' (ListData view)
              \<and> CurrentPage view = 1 \<and> MaxPage view = 0 \<and> list_Posts view = [])
   \<and> RenderFrontPage (demo_env [''site/theme/plain/list.html'']) (demo_site 2 False []) ''old''
       = (None, ''oldlist.html /posts'')"
proof -
  let ?rd = "demo_site 2 False []"
  let ?items = "[\<lparr>fi_Name = ''_header.html'', fi_IsDir = False\<rparr>,
                 \<lparr>fi_Name = ''_img.html'', fi_IsDir = True\<rparr>,
                 \<lparr>fi_Name = ''list.html'', fi_IsDir = False\<rparr>]"
  have run: "RenderFrontPage (demo_env [''site/theme/plain/list.html'']) ?rd ''old''
        = (None, ''oldlist.html /posts'')"
    by (simp add: RenderFrontPage_def demo_config demo_themeDir demo_tpl_paths demo_env_sel
        demo_base getListPosts_def wrap64_def executeTemplate_def demo_show_def Let_def)
  have "\<exists>view. RenderFrontPage (demo_env [''site/theme/plain/list.html'']) ?rd ''old''
               = executeTemplate (demo_env [''site/theme/plain/list.html'']) ?rd
                   [''site/theme/plain/_header.html'', ''site/theme/plain/list.html''] ''old''
                   ''list.html'' (ListData view)
              \<and> CurrentPage view = 1 \<and> MaxPage view = 0 \<and> list_Posts view = []
              \<and> MaxPage view < CurrentPage view"
    by (rule RenderFrontPage_empty_list [where items = ?items])
      (simp_all add: demo_config(2-) demo_themeDir demo_tpl_paths demo_env_sel
        HasSuffix_def HasPrefix_def)
  then show ?thesis
    by (simp add: demo_config(2-) demo_themeDir demo_tpl_paths demo_env_sel run [symmetric])
      blast
qed

text \<open>With the page size 0 the page count of the empty list is the conversion of a NaN.\<close>

lemma getMaxPagination_zero_page_size:
  "cfg_Pagination (rd_Config rd) = 0 \<Longrightarrow> getMaxPagination E rd [] = convUndef E NaN"
  by (simp add: getMaxPagination_def f64_of_int_def round64_def)

section \<open>Paths and groups\<close>

subsection \<open>Joining an ordinary name to a directory\<close>

lemma splitSlash_not_Nil: "splitSlash s \<noteq> []"
  by (induction s) (auto split: list.splits)

lemma splitSlash_append: "splitSlash (a @ ''/'' @ b) = splitSlash a @ splitSlash b"
proof (induction a)
  case Nil
  show ?case by simp
next
  case (Cons c cs)
  obtain w ws where "splitSlash cs = w # ws"
    using splitSlash_not_Nil [of cs] by (cases "splitSlash cs") auto
  then show ?case using Cons by simp
qed

lemma joinSlash_Cons: "es \<noteq> [] \<Longrightarrow> joinSlash (e # es) = e @ ''/'' @ joinSlash es"
  by (cases es) simp_all

lemma joinSlash_Cons_Cons: "joinSlash ((c # w) # ws) = c # joinSlash (w # ws)"
  by (cases ws) simp_all

lemma joinSlash_splitSlash: "joinSlash (splitSlash s) = s"
proof (induction s)
  case Nil
  show ?case by simp
next
  case (Cons c cs)
  obtain w ws where sp: "splitSlash cs = w # ws"
    using splitSlash_not_Nil [of cs] by (cases "splitSlash cs") auto
  show ?case
  proof (cases "c = CHR ''/''")
    case True
    then show ?thesis using Cons splitSlash_not_Nil [of cs] by (simp add: joinSlash_Cons)
  next
    case False
    then show ?thesis using Cons sp by (simp add: joinSlash_Cons_Cons)
  qed
qed

lemma cleanElems_ordinary:
  "list_all ordinaryElem es \<Longrightarrow> cleanElems rooted out es = rev out @ es"
  by (induction es arbitrary: out) (simp_all add: ordinaryElem_def)

lemma ordinaryName_not_Nil: "ordinaryName name \<Longrightarrow> name \<noteq> []"
  by (auto simp: ordinaryName_def ordinaryElem_def)

lemma Clean_rooted_ordinary:
  assumes "ordinaryName name" and "pre \<noteq> []" and "hd pre = CHR ''/''"
    and "cleanElems True [] (splitSlash pre) = [d]"
    and "list_all (\<lambda>e. e = [] \<or> ordinaryElem e) (splitSlash pre)"
  shows "Clean (pre @ ''/'' @ name) = ''/'' @ d @ ''/'' @ name"
proof -
  have ce: "list_all (\<lambda>e. e = [] \<or> ordinaryElem e) xs \<Longrightarrow> list_all ordinaryElem ys \<Longrightarrow>
            cleanElems True out (xs @ ys) = cleanElems True out xs @ ys" for xs ys out
    by (induction xs arbitrary: out) (auto simp: cleanElems_ordinary ordinaryElem_def)
  have "cleanElems True [] (splitSlash (pre @ ''/'' @ name)) = d # splitSlash name"
    unfolding splitSlash_append using assms(1,4,5) by (simp add: ce ordinaryName_def)
  moreover have "joinSlash (d # splitSlash name) = d @ ''/'' @ name"
    using splitSlash_not_Nil [of name] by (simp add: joinSlash_Cons joinSlash_splitSlash)
  ultimately show ?thesis
    using assms(2,3) by (simp add: Clean_def)
qed

lemma Join_ordinary:
  assumes "ordinaryName name"
  shows "Join [''/'', ''category'', name] = ''/category/'' @ name"
    and "Join [''/category'', name] = ''/category/'' @ name"
    and "Join [''/'', ''tag'', name] = ''/tag/'' @ name"
    and "Join [''/tag'', name] = ''/tag/'' @ name"
proof -
  have n: "name \<noteq> []" using assms by (rule ordinaryName_not_Nil)
  have "Clean (''//category'' @ ''/'' @ name) = ''/'' @ ''category'' @ ''/'' @ name"
    by (rule Clean_rooted_ordinary [OF assms]) (simp_all add: ordinaryElem_def)
  then show "Join [''/'', ''category'', name] = ''/category/'' @ name"
    using n by (simp add: Join_def)
  have "Clean (''/category'' @ ''/'' @ name) = ''/'' @ ''category'' @ ''/'' @ name"
    by (rule Clean_rooted_ordinary [OF assms]) (simp_all add: ordinaryElem_def)
  then show "Join [''/category'', name] = ''/category/'' @ name"
    using n by (simp add: Join_def)
  have "Clean (''//tag'' @ ''/'' @ name) = ''/'' @ ''tag'' @ ''/'' @ name"
    by (rule Clean_rooted_ordinary [OF assms]) (simp_all add: ordinaryElem_def)
  then show "Join [''/'', ''tag'', name] = ''/tag/'' @ name"
    using n by (simp add: Join_def)
  have "Clean (''/tag'' @ ''/'' @ name) = ''/'' @ ''tag'' @ ''/'' @ name"
    by (rule Clean_rooted_ordinary [OF assms]) (simp_all add: ordinaryElem_def)
  then show "Join [''/tag'', name] = ''/tag/'' @ name"
    using n by (simp add: Join_def)
qed

subsection \<open>Sorting a slice\<close>

lemma mset_insertSlice: "mset (insertSlice lt x xs) = add_mset x (mset xs)"
  by (induction xs) simp_all

lemma mset_sortSlice: "mset (sortSlice lt xs) = mset xs"
  by (induction xs) (simp_all add: mset_insertSlice)

lemma set_insertSlice: "set (insertSlice lt x xs) = insert x (set xs)"
  by (induction xs) auto

lemma sorted_insertSlice:
  fixes key :: "'a \<Rightarrow> 'k::linorder"
  shows "sorted (map key xs) \<Longrightarrow> sorted (map key (insertSlice (\<lambda>a b. key a < key b) x xs))"
  by (induction xs) (auto simp: set_insertSlice)

lemma sorted_sortSlice:
  fixes key :: "'a \<Rightarrow> 'k::linorder"
  shows "sorted (map key (sortSlice (\<lambda>a b. key a < key b) xs))"
  by (induction xs) (simp_all add: sorted_insertSlice)

lemma postTags_groups:
  "sorted (map group_Name (postTags post))"
  "mset (map group_Name (postTags post)) = mset (post_Tags post)"
  "g \<in> set (postTags post) \<Longrightarrow> group_Path g = Join [''/'', ''tag'', group_Name g]"
proof -
  show "sorted (map group_Name (postTags post))"
    unfolding postTags_def by (rule sorted_sortSlice)
  have "mset (postTags post) =
        mset (map (\<lambda>tag. \<lparr>group_Name = tag, group_Path = Join [''/'', ''tag'', tag]\<rparr>)
               (post_Tags post))"
    unfolding postTags_def by (rule mset_sortSlice)
  then have m: "mset (postTags post) =
        image_mset (\<lambda>tag. \<lparr>group_Name = tag, group_Path = Join [''/'', ''tag'', tag]\<rparr>)
          (mset (post_Tags post))"
    by simp
  have "mset (map group_Name (postTags post)) = image_mset group_Name (mset (postTags post))"
    by simp
  also have "\<dots> = mset (post_Tags post)"
    unfolding m by (simp add: image_mset.compositionality comp_def)
  finally show "mset (map group_Name (postTags post)) = mset (post_Tags post)" .
  assume "g \<in> set (postTags post)"
  then have "g \<in># mset (postTags post)" by simp
  then show "group_Path g = Join [''/'', ''tag'', group_Name g]"
    unfolding m by auto
qed

lemma RenderPost_reaches_execute:
  assumes "cfg_Theme (rd_Config rd) \<noteq> []"
    and "fileExists E (Join [themeDir rd, ''post.html''])"
    and "readDir E (themeDir rd) = Inr items"
    and "readIndexFile E (post_Path post) = Inr content"
    and "parseFiles E (baseItems (themeDir rd) items @ [Join [themeDir rd, ''post.html'']]) = Inr tpl"
  shows "\<exists>view. RenderPost E rd post olderPost newerPost dst =
                   executeTemplate E rd tpl dst ''post.html'' (PostData view)
               \<and> pv_Category view = postCategory post \<and> pv_Tags view = postTags post"
  using assms
  by (auto simp: RenderPost_def validateConfig_def getBaseTemplates_def Let_def)

subsection \<open>The groups of a post\<close>

text \<open>
  C7, as stated, fails for a category that \<open>Join\<close> does not keep as it is: the category
  \<^verbatim>\<open>news/\<close> gets the path \<^verbatim>\<open>/category/news\<close>.
\<close>

theorem RenderPost_category_group_counterexample:
  "postCategory (demo_post ''A'' ''news/'' [])
     = \<lparr>group_Name = ''news/'', group_Path = ''/category/news''\<rparr>
   \<and> RenderPost (demo_env [''site/theme/plain/post.html'']) (demo_site 2 False [])
       (demo_post ''A'' ''news/'' []) (demo_post ''O'' [] []) (demo_post ''N'' [] []) ''old''
     = (None, ''oldpost.html /category/news'')"
  by (simp add: RenderPost_def demo_config demo_themeDir demo_tpl_paths demo_env_sel demo_base
      demo_post_sel postCategory_def postTags_def executeTemplate_def demo_show_def Let_def
      Join_def Clean_def)

text \<open>
  C7, amended. When \<open>RenderPost\<close> gets as far as executing the template, the category
  group of the view has the post's category as its name; its path is
  \<^verbatim>\<open>/category/uncategorized\<close> for the empty category and otherwise the cleaned join of
  \<^verbatim>\<open>/\<close>, \<^verbatim>\<open>category\<close> and the category, which is \<^verbatim>\<open>/category/\<close> followed by the
  category when the category is an ordinary name.
\<close>

theorem RenderPost_category_group:
  assumes "cfg_Theme (rd_Config rd) \<noteq> []"
    and "fileExists E (Join [themeDir rd, ''post.html''])"
    and "readDir E (themeDir rd) = Inr items"
    and "readIndexFile E (post_Path post) = Inr content"
    and "parseFiles E (baseItems (themeDir rd) items @ [Join [themeDir rd, ''post.html'']]) = Inr tpl"
  shows "\<exists>view. RenderPost E rd post olderPost newerPost dst =
                   executeTemplate E rd tpl dst ''post.html'' (PostData view)
           \<and> group_Name (pv_Category view) = post_Category post
           \<and> group_Path (pv_Category view) =
               (if post_Category post = [] then ''/category/uncategorized''
                else Join [''/'', ''category'', post_Category post])
           \<and> (ordinaryName (post_Category post) \<longrightarrow>
                group_Path (pv_Category view) = ''/category/'' @ post_Category post)"
proof -
  from RenderPost_reaches_execute [OF assms, of olderPost newerPost dst]
  obtain view where v: "RenderPost E rd post olderPost newerPost dst =
      executeTemplate E rd tpl dst ''post.html'' (PostData view)"
    "pv_Category view = postCategory post"
    by blast
  have u: "Join [''/'', ''category'', ''uncategorized''] = ''/category/uncategorized''"
    by (simp add: Join_def Clean_def)
  have "group_Name (postCategory post) = post_Category post"
    by (simp add: postCategory_def Let_def)
  moreover have "group_Path (postCategory post) =
      (if post_Category post = [] then ''/category/uncategorized''
       else Join [''/'', ''category'', post_Category post])"
    by (simp add: postCategory_def Let_def u)
  moreover have "ordinaryName (post_Category post) \<longrightarrow>
      group_Path (postCategory post) = ''/category/'' @ post_Category post"
    using ordinaryName_not_Nil [of "post_Category post"]
    by (auto simp: postCategory_def Let_def Join_ordinary(1))
  ultimately show ?thesis using v by auto
qed

theorem RenderPost_category_group_witness:
  "cfg_Theme (rd_Config (demo_site 2 False [])) \<noteq> []
   \<and> fileExists (demo_env [''site/theme/plain/post.html''])
        (Join [themeDir (demo_site 2 False []), ''post.html''])
   \<and> readIndexFile (demo_env [''site/theme/plain/post.html''])
        (post_Path (demo_post ''A'' ''news'' [])) = Inr ''body''
   \<and> ordinaryName (post_Category (demo_post ''A'' ''news'' []))
   \<and> (\<exists>view. RenderPost (demo_env [''site/theme/plain/post.html'']) (demo_site 2 False [])
                 (demo_post ''A'' ''news'' []) (demo_post ''O'' [] []) (demo_post ''N'' [] []) ''old''
               = executeTemplate (demo_env [''site/theme/plain/post.html'']) (demo_site 2 False [])
                   [''site/theme/plain/_header.html'', ''site/theme/plain/post.html''] ''old''
                   ''post.html'' (PostData view)
              \<and> group_Name (pv_Category view) = ''news''
              \<and> group_Path (pv_Category view) = ''/category/news'')"
proof -
  let ?items = "[\<lparr>fi_Name = ''_header.html'', fi_IsDir = False\<rparr>,
                 \<lparr>fi_Name = ''_img.html'', fi_IsDir = True\<rparr>,
                 \<lparr>fi_Name = ''list.html'', fi_IsDir = False\<rparr>]"
  have o: "ordinaryName ''news''" by (simp add: ordinaryName_def ordinaryElem_def)
  have "\<exists>view. RenderPost (demo_env [''site/theme/plain/post.html'']) (demo_site 2 False [])
                 (demo_post ''A'' ''news'' []) (demo_post ''O'' [] []) (demo_post ''N'' [] []) ''old''
               = executeTemplate (demo_env [''site/theme/plain/post.html'']) (demo_site 2 False [])
                   [''site/theme/plain/_header.html'', ''site/theme/plain/post.html''] ''old''
                   ''post.html'' (PostData view)
           \<and> group_Name (pv_Category view) = post_Category (demo_post ''A'' ''news'' [])
           \<and> group_Path (pv_Category view) =
               (if post_Category (demo_post ''A'' ''news'' []) = [] then ''/category/uncategorized''
                else Join [''/'', ''category'', post_Category (demo_post ''A'' ''news'' [])])
           \<and> (ordinaryName (post_Category (demo_post ''A'' ''news'' [])) \<longrightarrow>
                group_Path (pv_Category view)
                  = ''/category/'' @ post_Category (demo_post ''A'' ''news'' []))"
    by (rule RenderPost_category_group [where items = ?items and content = "''body''"])
      (simp_all add: demo_config(2-) demo_themeDir demo_tpl_paths demo_env_sel
        HasSuffix_def HasPrefix_def)
  then show ?thesis
    using o by (simp add: demo_config(2-) demo_themeDir demo_tpl_paths demo_env_sel demo_post_sel)
      blast
qed

text \<open>
  C8, as stated, fails for a tag that \<open>Join\<close> does not keep as it is: the tag \<^verbatim>\<open>..\<close> gets
  the path \<^verbatim>\<open>/\<close>. (The groups are in the order of their names.)
\<close>

theorem RenderPost_tag_groups_counterexample:
  "postTags (demo_post ''A'' [] [''b'', ''..'', ''a''])
     = [\<lparr>group_Name = ''..'', group_Path = ''/''\<rparr>,
        \<lparr>group_Name = ''a'', group_Path = ''/tag/a''\<rparr>,
        \<lparr>group_Name = ''b'', group_Path = ''/tag/b''\<rparr>]
   \<and> RenderPost (demo_env [''site/theme/plain/post.html'']) (demo_site 2 False [])
       (demo_post ''A'' [] [''b'', ''..'', ''a'']) (demo_post ''O'' [] []) (demo_post ''N'' [] [])
       ''old''
     = (None, ''oldpost.html /category/uncategorized ..=/ a=/tag/a b=/tag/b'')"
  by (simp add: RenderPost_def demo_config demo_themeDir demo_tpl_paths demo_env_sel demo_base
      demo_post_sel postCategory_def postTags_def executeTemplate_def demo_show_def Let_def
      Join_def Clean_def)

text \<open>
  C8, amended. When \<open>RenderPost\<close> gets as far as executing the template, the tag groups
  of the view are sorted by name (bytewise, as Go compares strings), their names are the
  post's tags, each as often as the post has it, and the path of each group is the
  cleaned join of \<^verbatim>\<open>/\<close>, \<^verbatim>\<open>tag\<close> and its name, which is \<^verbatim>\<open>/tag/\<close> followed by the name
  when the name is ordinary.
\<close>

theorem RenderPost_tag_groups:
  assumes "cfg_Theme (rd_Config rd) \<noteq> []"
    and "fileExists E (Join [themeDir rd, ''post.html''])"
    and "readDir E (themeDir rd) = Inr items"
    and "readIndexFile E (post_Path post) = Inr content"
    and "parseFiles E (baseItems (themeDir rd) items @ [Join [themeDir rd, ''post.html'']]) = Inr tpl"
  shows "\<exists>view. RenderPost E rd post olderPost newerPost dst =
                   executeTemplate E rd tpl dst ''post.html'' (PostData view)
           \<and> sorted (map group_Name (pv_Tags view))
           \<and> mset (map group_Name (pv_Tags view)) = mset (post_Tags post)
           \<and> (\<forall>g \<in> set (pv_Tags view).
                group_Path g = Join [''/'', ''tag'', group_Name g]
                \<and> (ordinaryName (group_Name g) \<longrightarrow> group_Path g = ''/tag/'' @ group_Name g))"
proof -
  from RenderPost_reaches_execute [OF assms, of olderPost newerPost dst]
  obtain view where v: "RenderPost E rd post olderPost newerPost dst =
      executeTemplate E rd tpl dst ''post.html'' (PostData view)"
    "pv_Tags view = postTags post"
    by blast
  have paths: "\<forall>g \<in> set (pv_Tags view).
          group_Path g = Join [''/'', ''tag'', group_Name g]
          \<and> (ordinaryName (group_Name g) \<longrightarrow> group_Path g = ''/tag/'' @ group_Name g)"
    unfolding v(2) by (auto simp: postTags_groups(3) Join_ordinary(3))
  have srt: "sorted (map group_Name (pv_Tags view))"
    unfolding v(2) by (rule postTags_groups(1))
  have names: "mset (map group_Name (pv_Tags view)) = mset (post_Tags post)"
    unfolding v(2) by (rule postTags_groups(2))
  show ?thesis
    using v(1) srt names paths by blast
qed

theorem RenderPost_tag_groups_witness:
  "cfg_Theme (rd_Config (demo_site 2 False [])) \<noteq> []
   \<and> fileExists (demo_env [''site/theme/plain/post.html''])
        (Join [themeDir (demo_site 2 False []), ''post.html''])
   \<and> readIndexFile (demo_env [''site/theme/plain/post.html''])
        (post_Path (demo_post ''A'' ''news'' [''go'', ''blog''])) = Inr ''body''
   \<and> (\<exists>view. RenderPost (demo_env [''site/theme/plain/post.html'']) (demo_site 2 False [])
                 (demo_post ''A'' ''news'' [''go'', ''blog'']) (demo_post ''O'' [] [])
                 (demo_post ''N'' [] []) ''old''
               = executeTemplate (demo_env [''site/theme/plain/post.html'']) (demo_site 2 False [])
                   [''site/theme/plain/_header.html'', ''site/theme/plain/post.html''] ''old''
                   ''post.html'' (PostData view)
              \<and> sorted (map group_Name (pv_Tags view))
              \<and> mset (map group_Name (pv_Tags view)) = mset [''go'', ''blog'']
              \<and> (\<forall>g \<in> set (pv_Tags view).
                   ordinaryName (group_Name g) \<longrightarrow> group_Path g = ''/tag/'' @ group_Name g))
   \<and> postTags (demo_post ''A'' ''news'' [''go'', ''blog''])
       = [\<lparr>group_Name = ''blog'', group_Path = ''/tag/blog''\<rparr>,
          \<lparr>group_Name = ''go'', group_Path = ''/tag/go''\<rparr>]
   \<and> ordinaryName ''blog'' \<and> ordinaryName ''go''"
proof -
  let ?items = "[\<lparr>fi_Name = ''_header.html'', fi_IsDir = False\<rparr>,
                 \<lparr>fi_Name = ''_img.html'', fi_IsDir = True\<rparr>,
                 \<lparr>fi_Name = ''list.html'', fi_IsDir = False\<rparr>]"
  have o: "ordinaryName ''blog''" "ordinaryName ''go''"
    by (simp_all add: ordinaryName_def ordinaryElem_def)
  have t: "postTags (demo_post ''A'' ''news'' [''go'', ''blog''])
       = [\<lparr>group_Name = ''blog'', group_Path = ''/tag/blog''\<rparr>,
          \<lparr>group_Name = ''go'', group_Path = ''/tag/go''\<rparr>]"
    by (simp add: postTags_def demo_post_sel Join_def Clean_def)
  have "\<exists>view. RenderPost (demo_env [''site/theme/plain/post.html'']) (demo_site 2 False [])
                 (demo_post ''A'' ''news'' [''go'', ''blog'']) (demo_post ''O'' [] [])
                 (demo_post ''N'' [] []) ''old''
               = executeTemplate (demo_env [''site/theme/plain/post.html'']) (demo_site 2 False [])
                   [''site/theme/plain/_header.html'', ''site/theme/plain/post.html''] ''old''
                   ''post.html'' (PostData view)
           \<and> sorted (map group_Name (pv_Tags view))
           \<and> mset (map group_Name (pv_Tags view))
               = mset (post_Tags (demo_post ''A'' ''news'' [''go'', ''blog'']))
           \<and> (\<forall>g \<in> set (pv_Tags view).
                group_Path g = Join [''/'', ''tag'', group_Name g]
                \<and> (ordinaryName (group_Name g) \<longrightarrow> group_Path g = ''/tag/'' @ group_Name g))"
    by (rule RenderPost_tag_groups [where items = ?items and content = "''body''"])
      (simp_all add: demo_config(2-) demo_themeDir demo_tpl_paths demo_env_sel
        HasSuffix_def HasPrefix_def)
  then obtain view where v:
    "RenderPost (demo_env [''site/theme/plain/post.html'']) (demo_site 2 False [])
       (demo_post ''A'' ''news'' [''go'', ''blog'']) (demo_post ''O'' [] [])
       (demo_post ''N'' [] []) ''old''
     = executeTemplate (demo_env [''site/theme/plain/post.html'']) (demo_site 2 False [])
         [''site/theme/plain/_header.html'', ''site/theme/plain/post.html''] ''old''
         ''post.html'' (PostData view)"
    "sorted (map group_Name (pv_Tags view))"
    "mset (map group_Name (pv_Tags view))
       = mset (post_Tags (demo_post ''A'' ''news'' [''go'', ''blog'']))"
    "\<forall>g \<in> set (pv_Tags view).
       ordinaryName (group_Name g) \<longrightarrow> group_Path g = ''/tag/'' @ group_Name g"
    by blast
  have "mset (map group_Name (pv_Tags view)) = mset [''go'', ''blog'']"
    using v(3) by (simp add: demo_post_sel)
  then have ex: "\<exists>view. RenderPost (demo_env [''site/theme/plain/post.html''])
                 (demo_site 2 False [])
                 (demo_post ''A'' ''news'' [''go'', ''blog'']) (demo_post ''O'' [] [])
                 (demo_post ''N'' [] []) ''old''
               = executeTemplate (demo_env [''site/theme/plain/post.html'']) (demo_site 2 False [])
                   [''site/theme/plain/_header.html'', ''site/theme/plain/post.html''] ''old''
                   ''post.html'' (PostData view)
              \<and> sorted (map group_Name (pv_Tags view))
              \<and> mset (map group_Name (pv_Tags view)) = mset [''go'', ''blog'']
              \<and> (\<forall>g \<in> set (pv_Tags view).
                   ordinaryName (group_Name g) \<longrightarrow> group_Path g = ''/tag/'' @ group_Name g)"
    using v(1,2,4) by blast
  show ?thesis
    using ex o t
    by (simp add: demo_config(2-) demo_themeDir demo_tpl_paths demo_env_sel demo_post_sel)
qed

subsection \<open>The path of a list\<close>

lemma RenderList_reaches_execute:
  assumes "cfg_Theme (rd_Config rd) \<noteq> []"
    and "fileExists E (Join [themeDir rd, ''list.html''])"
    and "readDir E (themeDir rd) = Inr items"
    and "max 1 pageNumber \<le> getMaxPagination E rd (listPostsOf rd listType groupName)"
    and "getListPosts rd (listPostsOf rd listType groupName) (max 1 pageNumber) = Inr window"
    and "parseFiles E (baseItems (themeDir rd) items @ [Join [themeDir rd, ''list.html'']]) = Inr tpl"
  shows "\<exists>view. RenderList E rd listType groupName pageNumber dst =
                 (case executeTemplate E rd tpl dst ''list.html'' (ListData view) of
                    (Some err, w) \<Rightarrow> (Inl err, w)
                  | (None, w) \<Rightarrow> (Inr (int (length (listPostsOf rd listType groupName))), w))
               \<and> list_Path view = listPathOf listType (groupNameOf listType groupName)
               \<and> list_Posts view = window
               \<and> CurrentPage view = max 1 pageNumber"
  using assms
  by (auto simp: RenderList_def validateConfig_def getBaseTemplates_def Let_def max_def
      split: if_splits)

text \<open>
  C5, as stated, fails: the list of the group \<^verbatim>\<open>uncategorized\<close> is rendered with the
  path \<^verbatim>\<open>/category\<close>, because the group name has been replaced by the empty string
  before the path is joined; and the tag list of \<^verbatim>\<open>..\<close> has the path \<^verbatim>\<open>/\<close>.
\<close>

theorem RenderList_path_counterexample:
  "RenderList (demo_env [''site/theme/plain/list.html''])
     (demo_site 2 False [demo_post ''A'' [] [], demo_post ''B'' ''x'' [''..'']])
     CATEGORY ''uncategorized'' 1 ''old''
   = (Inr 1, ''oldlist.html /category'')
   \<and> RenderList (demo_env [''site/theme/plain/list.html''])
       (demo_site 2 False [demo_post ''A'' [] [], demo_post ''B'' ''x'' [''..'']])
       TAG ''..'' 1 ''old''
     = (Inr 1, ''oldlist.html /'')"
  by (simp add: RenderList_def demo_config demo_themeDir demo_tpl_paths demo_base Let_def
      listPostsOf_def groupNameOf_def filterCategory_def filterTag_def demo_post_sel
      getMaxPagination_div getListPosts_def wrap64_def listPathOf_def Join_def Clean_def
      executeTemplate_def demo_env_sel demo_show_def)

text \<open>
  C5, amended. When \<open>RenderList\<close> gets as far as executing the template, the path of the
  view is \<^verbatim>\<open>/posts\<close> for the default list, \<^verbatim>\<open>/category/\<close> followed by the group name for
  a category list whose group name is ordinary and not \<^verbatim>\<open>uncategorized\<close>, and \<^verbatim>\<open>/tag/\<close>
  followed by the group name for a tag list whose group name is ordinary.
\<close>

theorem RenderList_path:
  assumes "cfg_Theme (rd_Config rd) \<noteq> []"
    and "fileExists E (Join [themeDir rd, ''list.html''])"
    and "readDir E (themeDir rd) = Inr items"
    and "max 1 pageNumber \<le> getMaxPagination E rd (listPostsOf rd listType groupName)"
    and "getListPosts rd (listPostsOf rd listType groupName) (max 1 pageNumber) = Inr window"
    and "parseFiles E (baseItems (themeDir rd) items @ [Join [themeDir rd, ''list.html'']]) = Inr tpl"
  shows "\<exists>view. RenderList E rd listType groupName pageNumber dst =
                 (case executeTemplate E rd tpl dst ''list.html'' (ListData view) of
                    (Some err, w) \<Rightarrow> (Inl err, w)
                  | (None, w) \<Rightarrow> (Inr (int (length (listPostsOf rd listType groupName))), w))
           \<and> (listType = DEFAULT \<longrightarrow> list_Path view = ''/posts'')
           \<and> (listType = CATEGORY \<longrightarrow> groupName \<noteq> ''uncategorized'' \<longrightarrow>
                ordinaryName groupName \<longrightarrow> list_Path view = ''/category/'' @ groupName)
           \<and> (listType = TAG \<longrightarrow> ordinaryName groupName \<longrightarrow>
                list_Path view = ''/tag/'' @ groupName)"
proof -
  from RenderList_reaches_execute [OF assms, of dst]
  obtain view where v: "RenderList E rd listType groupName pageNumber dst =
                 (case executeTemplate E rd tpl dst ''list.html'' (ListData view) of
                    (Some err, w) \<Rightarrow> (Inl err, w)
                  | (None, w) \<Rightarrow> (Inr (int (length (listPostsOf rd listType groupName))), w))"
    "list_Path view = listPathOf listType (groupNameOf listType groupName)"
    by blast
  have d: "listType = DEFAULT \<longrightarrow> list_Path view = ''/posts''"
    unfolding v(2) by (simp add: listPathOf_def)
  have c: "listType = CATEGORY \<longrightarrow> groupName \<noteq> ''uncategorized'' \<longrightarrow>
             ordinaryName groupName \<longrightarrow> list_Path view = ''/category/'' @ groupName"
    unfolding v(2) by (simp add: listPathOf_def groupNameOf_def Join_ordinary(2))
  have t: "listType = TAG \<longrightarrow> ordinaryName groupName \<longrightarrow>
             list_Path view = ''/tag/'' @ groupName"
    unfolding v(2) by (simp add: listPathOf_def groupNameOf_def Join_ordinary(4))
  show ?thesis using v(1) d c t by blast
qed

theorem RenderList_path_witness:
  "cfg_Theme (rd_Config (demo_site 2 False
      [demo_post ''A'' [] [], demo_post ''B'' ''x'' [''go'']])) \<noteq> []
   \<and> fileExists (demo_env [''site/theme/plain/list.html''])
        (Join [themeDir (demo_site 2 False
           [demo_post ''A'' [] [], demo_post ''B'' ''x'' [''go'']]), ''list.html''])
   \<and> ''x'' \<noteq> ''uncategorized'' \<and> ordinaryName ''x'' \<and> ordinaryName ''go''
   \<and> getListPosts (demo_site 2 False [demo_post ''A'' [] [], demo_post ''B'' ''x'' [''go'']])
        [demo_post ''B'' ''x'' [''go'']] 1 = Inr [demo_post ''B'' ''x'' [''go'']]
   \<and> RenderList (demo_env [''site/theme/plain/list.html''])
        (demo_site 2 False [demo_post ''A'' [] [], demo_post ''B'' ''x'' [''go'']])
        DEFAULT [] 1 ''old''
      = (Inr 2, ''oldlist.html /posts'')
   \<and> RenderList (demo_env [''site/theme/plain/list.html''])
        (demo_site 2 False [demo_post ''A'' [] [], demo_post ''B'' ''x'' [''go'']])
        CATEGORY ''x'' 1 ''old''
      = (Inr 1, ''oldlist.html /category/x'')
   \<and> RenderList (demo_env [''site/theme/plain/list.html''])
        (demo_site 2 False [demo_post ''A'' [] [], demo_post ''B'' ''x'' [''go'']])
        TAG ''go'' 1 ''old''
      = (Inr 1, ''oldlist.html /tag/go'')"
proof -
  let ?E = "demo_env [''site/theme/plain/list.html'']"
  let ?rd = "demo_site 2 False [demo_post ''A'' [] [], demo_post ''B'' ''x'' [''go'']]"
  let ?items = "[\<lparr>fi_Name = ''_header.html'', fi_IsDir = False\<rparr>,
                 \<lparr>fi_Name = ''_img.html'', fi_IsDir = True\<rparr>,
                 \<lparr>fi_Name = ''list.html'', fi_IsDir = False\<rparr>]"
  let ?tpl = "[''site/theme/plain/_header.html'', ''site/theme/plain/list.html'']"
  have o: "ordinaryName ''x''" "ordinaryName ''go''"
    by (simp_all add: ordinaryName_def ordinaryElem_def)
  have runs:
    "RenderList ?E ?rd DEFAULT [] 1 ''old'' = (Inr 2, ''oldlist.html /posts'')"
    "RenderList ?E ?rd CATEGORY ''x'' 1 ''old'' = (Inr 1, ''oldlist.html /category/x'')"
    "RenderList ?E ?rd TAG ''go'' 1 ''old'' = (Inr 1, ''oldlist.html /tag/go'')"
    by (simp_all add: RenderList_def demo_config demo_themeDir demo_tpl_paths demo_base Let_def
      listPostsOf_def groupNameOf_def filterCategory_def filterTag_def demo_post_sel
      getMaxPagination_div getListPosts_def wrap64_def listPathOf_def Join_def Clean_def
      executeTemplate_def demo_env_sel demo_show_def)
  have win: "getListPosts ?rd [demo_post ''B'' ''x'' [''go'']] 1
      = Inr [demo_post ''B'' ''x'' [''go'']]"
    "getListPosts ?rd [demo_post ''A'' [] [], demo_post ''B'' ''x'' [''go'']] 1
      = Inr [demo_post ''A'' [] [], demo_post ''B'' ''x'' [''go'']]"
    by (simp_all add: getListPosts_def demo_config wrap64_def)
  show ?thesis
    using RenderList_path [where rd = ?rd and E = ?E and items = ?items and pageNumber = 1
        and listType = DEFAULT and groupName = "[]" and tpl = ?tpl and dst = "''old''"
        and window = "[demo_post ''A'' [] [], demo_post ''B'' ''x'' [''go'']]"]
      RenderList_path [where rd = ?rd and E = ?E and items = ?items and pageNumber = 1
        and listType = CATEGORY and groupName = "''x''" and tpl = ?tpl and dst = "''old''"
        and window = "[demo_post ''B'' ''x'' [''go'']]"]
      RenderList_path [where rd = ?rd and E = ?E and items = ?items and pageNumber = 1
        and listType = TAG and groupName = "''go''" and tpl = ?tpl and dst = "''old''"
        and window = "[demo_post ''B'' ''x'' [''go'']]"]
    by (simp add: runs o win demo_config(2-) demo_themeDir demo_tpl_paths demo_env_sel)
qed

end
